theory Spec2Isabelle
  imports Main "HOL-Library.Word" "HOL-Library.AList" "HOL-Library.Product_Lexorder"
    "HOL-Library.Multiset"
begin

section \<open>Basic values\<close>

type_synonym byte = "8 word"
type_synonym bytes = "byte list"

text \<open>A \<open>ChecksumAddress\<close> is a Python \<open>str\<close>.\<close>

type_synonym address = string

text \<open>
  Exceptions are values. \<open>Raised\<close> stands for an exception thrown by one of the
  collaborators outside the observer package (payload parsers, signature recovery).
\<close>

datatype py_error =
    AssertionError
  | KeyError
  | IndexError
  | ZeroDivisionError
  | ValueError string
  | Raised string

section \<open>Epoch calculus\<close>

text \<open>
  Modelled from the spec: \<open>VotingEpoch\<close> and its factory live in \<open>py_flare_common\<close>,
  which is outside the sources. A voting epoch is an integer id; two epochs with the same
  id are equal; epochs are fixed-length windows, \<open>end_s\<close> is the start of the successor
  and \<open>reveal_deadline() = start_s + 45\<close>.
\<close>

datatype voting_epoch = VotingEpoch (ve_id: int)

record voting_epoch_factory =
  first_epoch_epoc :: int
  epoch_duration :: int

definition ve_next :: "voting_epoch \<Rightarrow> voting_epoch" where
  "ve_next e = VotingEpoch (ve_id e + 1)"

definition ve_previous :: "voting_epoch \<Rightarrow> voting_epoch" where
  "ve_previous e = VotingEpoch (ve_id e - 1)"

definition start_s :: "voting_epoch_factory \<Rightarrow> voting_epoch \<Rightarrow> int" where
  "start_s f e = first_epoch_epoc f + ve_id e * epoch_duration f"

definition end_s :: "voting_epoch_factory \<Rightarrow> voting_epoch \<Rightarrow> int" where
  "end_s f e = start_s f (ve_next e)"

definition reveal_deadline :: "voting_epoch_factory \<Rightarrow> voting_epoch \<Rightarrow> int" where
  "reveal_deadline f e = start_s f e + 45"

section \<open>Transactions and parsed payloads (voting\_round.py)\<close>

text \<open>
  \<open>WTxData\<close>: the projection of a transaction and the timestamp of its block. The field
  \<open>wrapped\<close> (the raw RPC dictionary the other fields are read from) is left out.
\<close>

record WTxData =
  hash :: bytes
  to_address :: "address option"
  input :: bytes
  block_number :: int
  timestamp :: int
  transaction_index :: int
  from_address :: address
  tx_value :: int

definition is_first_or_second :: "WTxData \<Rightarrow> bool" where
  "is_first_or_second w =
     (if transaction_index w = 0 \<or> transaction_index w = 1 then True else False)"

text \<open>
  \<open>ParsedPayload[T]\<close> comes from \<open>py_flare_common\<close>; the observer reads its
  \<open>voting_round_id\<close> and its \<open>payload\<close>.
\<close>

record 'a ParsedPayload =
  voting_round_id :: int
  payload :: 'a

record 'a WParsedPayload =
  parsed_payload :: "'a ParsedPayload"
  wtx_data :: WTxData

text \<open>Python's \<open>range(start, stop)\<close> object, of which only the two bounds are read.\<close>

datatype py_range = Range (start: int) (stop: int)

record 'a WParsedPayloadList =
  agg :: "'a WParsedPayload list"

text \<open>
  The loop of \<open>WParsedPayloadList.extract_latest\<close>: the third argument is the local
  variable \<open>latest\<close>.
\<close>

fun extract_latest_loop ::
  "py_range \<Rightarrow> 'a WParsedPayload list \<Rightarrow> 'a WParsedPayload option \<Rightarrow> 'a WParsedPayload option"
where
  "extract_latest_loop r [] latest = latest"
| "extract_latest_loop r (wpp # rest) latest =
     (let wtx = wtx_data wpp in
      if \<not> (start r \<le> timestamp wtx \<and> timestamp wtx < stop r)
      then extract_latest_loop r rest latest
      else (case latest of
              None \<Rightarrow> extract_latest_loop r rest (Some wpp)
            | Some l \<Rightarrow>
                if timestamp wtx > timestamp (wtx_data l)
                then extract_latest_loop r rest (Some wpp)
                else extract_latest_loop r rest latest))"

definition extract_latest :: "'a WParsedPayloadList \<Rightarrow> py_range \<Rightarrow> 'a WParsedPayload option" where
  "extract_latest l r = extract_latest_loop r (agg l) None"

definition in_range :: "py_range \<Rightarrow> 'a WParsedPayload \<Rightarrow> bool" where
  "in_range r w \<longleftrightarrow> start r \<le> timestamp (wtx_data w) \<and> timestamp (wtx_data w) < stop r"

section \<open>Attestation requests (voting\_round.py)\<close>

text \<open>
  \<open>AttestationRequest\<close> is declared in \<open>observer/types.py\<close>, outside the sources; these
  are the fields the observer reads. \<open>attestation_type\<close> and \<open>source_id\<close> are objects
  with a \<open>representation\<close> string.
\<close>

datatype fdc_name = FdcName (representation: string)

record AttestationRequest =
  data :: bytes
  block :: int
  log_index :: int
  attestation_type :: fdc_name
  source_id :: fdc_name
  voting_epoch_id :: voting_epoch

record AttestationRequestMapper =
  requests_agg :: "AttestationRequest list"

text \<open>
  The loop of \<open>AttestationRequestMapper.sorted\<close> over the sorted list, with the local
  variables \<open>ret\<close> and \<open>seen\<close>.
\<close>

fun sorted_loop ::
  "AttestationRequest list \<Rightarrow> AttestationRequest list \<Rightarrow> bytes set \<Rightarrow> AttestationRequest list"
where
  "sorted_loop [] ret seen = ret"
| "sorted_loop (ar # rest) ret seen =
     (if data ar \<in> seen then sorted_loop rest ret seen
      else sorted_loop rest (ret @ [ar]) (insert (data ar) seen))"

text \<open>
  Python's \<open>sorted\<close> is stable, as \<open>sort_key\<close> is; the key \<open>(x.block, x.log_index)\<close>
  is a tuple, compared lexicographically.
\<close>

definition requests_sorted :: "AttestationRequestMapper \<Rightarrow> AttestationRequest list" where
  "requests_sorted m =
     rev (sorted_loop (sort_key (\<lambda>x. (block x, log_index x)) (requests_agg m)) [] {})"

text \<open>
  The wording of the specification: of a list, keep the elements that are the first
  occurrence of their \<open>data\<close>, that is, those at an index \<open>i\<close> such that no element at a
  smaller index carries the same \<open>data\<close>.
\<close>

definition first_occurrences :: "AttestationRequest list \<Rightarrow> AttestationRequest list" where
  "first_occurrences xs =
     map (\<lambda>i. xs ! i) (filter (\<lambda>i. \<forall>j < i. data (xs ! j) \<noteq> data (xs ! i)) [0..<length xs])"

section \<open>Entities and signing policies (reward\_epoch\_manager.py)\<close>

text \<open>
  Modelled from the spec: \<open>RewardEpoch\<close> lives in \<open>py_flare_common\<close>; it is an integer
  id with a successor.
\<close>

datatype RewardEpoch = RewardEpoch (re_id: int)

definition re_next :: "RewardEpoch \<Rightarrow> RewardEpoch" where
  "re_next e = RewardEpoch (re_id e + 1)"

text \<open>
  The event classes are declared in \<open>observer/types.py\<close>, outside the sources; the
  records hold the fields that the builder reads, prefixed where two classes share a name.
\<close>

record RandomAcquisitionStarted =
  ras_reward_epoch_id :: int

record VotePowerBlockSelected =
  vpbs_reward_epoch_id :: int
  vpbs_vote_power_block :: int

record VoterRegistered =
  vr_voter :: address
  vr_signing_policy_address :: address
  vr_submit_address :: address
  vr_submit_signatures_address :: address
  vr_public_key :: string
  vr_registration_weight :: int

record VoterRegistrationInfo =
  vri_voter :: address
  vri_delegation_address :: address
  vri_delegation_fee_bips :: int
  vri_w_nat_weight :: int
  vri_w_nat_capped_weight :: int
  node_ids :: "string list"
  node_weights :: "int list"

record VoterRemoved =
  removed_voter :: address

record SigningPolicyInitialized =
  spi_reward_epoch_id :: int
  start_voting_round_id :: int
  spi_threshold :: int
  spi_seed :: int
  voters :: "address list"
  weights :: "int list"
  spi_signing_policy_bytes :: string

record Node =
  node_id :: string
  weight :: int

record Entity =
  identity_address :: address
  submit_address :: address
  submit_signatures_address :: address
  signing_policy_address :: address
  delegation_address :: address
  public_key :: string
  nodes :: "Node list"
  delegation_fee_bips :: int
  w_nat_weight :: int
  w_nat_capped_weight :: int
  registration_weight :: int
  normalized_weight :: int

record EntityMapper =
  by_identity_address :: "address \<rightharpoonup> Entity"
  by_submit_address :: "address \<rightharpoonup> Entity"
  by_submit_signatures_address :: "address \<rightharpoonup> Entity"
  by_signing_policy_address :: "address \<rightharpoonup> Entity"
  by_delegation_address :: "address \<rightharpoonup> Entity"
  by_omni :: "address \<rightharpoonup> Entity"

definition empty_mapper :: EntityMapper where
  "empty_mapper = \<lparr>by_identity_address = Map.empty, by_submit_address = Map.empty,
     by_submit_signatures_address = Map.empty, by_signing_policy_address = Map.empty,
     by_delegation_address = Map.empty, by_omni = Map.empty\<rparr>"

definition mapper_insert :: "Entity \<Rightarrow> EntityMapper \<Rightarrow> EntityMapper" where
  "mapper_insert e m =
     \<lparr>by_identity_address = (by_identity_address m)(identity_address e \<mapsto> e),
      by_submit_address = (by_submit_address m)(submit_address e \<mapsto> e),
      by_submit_signatures_address =
        (by_submit_signatures_address m)(submit_signatures_address e \<mapsto> e),
      by_signing_policy_address = (by_signing_policy_address m)(signing_policy_address e \<mapsto> e),
      by_delegation_address = (by_delegation_address m)(delegation_address e \<mapsto> e),
      by_omni = (by_omni m)
        (identity_address e \<mapsto> e, submit_address e \<mapsto> e, submit_signatures_address e \<mapsto> e,
         signing_policy_address e \<mapsto> e, delegation_address e \<mapsto> e)\<rparr>"

record SigningPolicy =
  reward_epoch :: RewardEpoch
  vote_power_block :: int
  start_voting_round :: int
  threshold :: int
  seed :: int
  signing_policy_bytes :: string
  entities :: "Entity list"
  entity_mapper :: EntityMapper

record SigningPolicyBuilder =
  builder_reward_epoch :: "RewardEpoch option"
  random_acquisation_started :: "RandomAcquisitionStarted option"
  vote_power_block_selected :: "VotePowerBlockSelected option"
  voter_registered :: "VoterRegistered list"
  voter_registration_info :: "VoterRegistrationInfo list"
  voter_removed :: "VoterRemoved list"
  signing_policy_initialized :: "SigningPolicyInitialized option"

text \<open>\<open>SigningPolicy.builder()\<close>: a builder with the defaults of its fields.\<close>

definition builder :: SigningPolicyBuilder where
  "builder = \<lparr>builder_reward_epoch = None, random_acquisation_started = None,
     vote_power_block_selected = None, voter_registered = [], voter_registration_info = [],
     voter_removed = [], signing_policy_initialized = None\<rparr>"

definition for_epoch :: "RewardEpoch \<Rightarrow> SigningPolicyBuilder \<Rightarrow> SigningPolicyBuilder" where
  "for_epoch r b = b\<lparr>builder_reward_epoch := Some r\<rparr>"

datatype policy_event =
    EvRandomAcquisitionStarted RandomAcquisitionStarted
  | EvVotePowerBlockSelected VotePowerBlockSelected
  | EvVoterRegistered VoterRegistered
  | EvVoterRegistrationInfo VoterRegistrationInfo
  | EvVoterRemoved VoterRemoved
  | EvSigningPolicyInitialized SigningPolicyInitialized

text \<open>\<open>SigningPolicyBuilder.add\<close>; a failed \<open>assert\<close> raises \<open>AssertionError\<close>.\<close>

fun add :: "policy_event \<Rightarrow> SigningPolicyBuilder \<Rightarrow> py_error + SigningPolicyBuilder" where
  "add (EvRandomAcquisitionStarted e) b =
     (if random_acquisation_started b \<noteq> None then Inl AssertionError
      else Inr (b\<lparr>random_acquisation_started := Some e\<rparr>))"
| "add (EvVotePowerBlockSelected e) b =
     (if vote_power_block_selected b \<noteq> None then Inl AssertionError
      else Inr (b\<lparr>vote_power_block_selected := Some e\<rparr>))"
| "add (EvVoterRegistered e) b = Inr (b\<lparr>voter_registered := voter_registered b @ [e]\<rparr>)"
| "add (EvVoterRegistrationInfo e) b =
     Inr (b\<lparr>voter_registration_info := voter_registration_info b @ [e]\<rparr>)"
| "add (EvVoterRemoved e) b = Inr (b\<lparr>voter_removed := voter_removed b @ [e]\<rparr>)"
| "add (EvSigningPolicyInitialized e) b =
     (if signing_policy_initialized b \<noteq> None then Inl AssertionError
      else Inr (b\<lparr>signing_policy_initialized := Some e\<rparr>))"

text \<open>A dictionary comprehension \<open>{k: v for ...}\<close>: a later pair overwrites an earlier one.\<close>

definition dict_of :: "('k \<times> 'v) list \<Rightarrow> ('k \<rightharpoonup> 'v)" where
  "dict_of kvs = fold (\<lambda>(k, v) m. m(k \<mapsto> v)) kvs Map.empty"

text \<open>\<open>d[k]\<close> on a dictionary raises \<open>KeyError\<close> for a missing key.\<close>

definition subscript :: "('k \<rightharpoonup> 'v) \<Rightarrow> 'k \<Rightarrow> py_error + 'v" where
  "subscript d k = (case d k of None \<Rightarrow> Inl KeyError | Some x \<Rightarrow> Inr x)"

text \<open>The \<open>Entity(...)\<close> constructed in the body of the loop of \<open>build\<close>.\<close>

definition make_entity :: "int \<Rightarrow> VoterRegistered \<Rightarrow> VoterRegistrationInfo \<Rightarrow> Entity" where
  "make_entity w vre vrie =
     \<lparr>identity_address = vr_voter vre,
      submit_address = vr_submit_address vre,
      submit_signatures_address = vr_submit_signatures_address vre,
      signing_policy_address = vr_signing_policy_address vre,
      delegation_address = vri_delegation_address vrie,
      public_key = vr_public_key vre,
      nodes = map (\<lambda>(n, w). \<lparr>node_id = n, weight = w\<rparr>) (zip (node_ids vrie) (node_weights vrie)),
      delegation_fee_bips = vri_delegation_fee_bips vrie,
      w_nat_weight = vri_w_nat_weight vrie,
      w_nat_capped_weight = vri_w_nat_capped_weight vrie,
      registration_weight = vr_registration_weight vre,
      normalized_weight = w\<rparr>"

text \<open>
  The loop \<open>for i, voter in enumerate(voters)\<close> of \<open>build\<close>, with the local variables
  \<open>entities\<close> and \<open>mapper\<close>. \<open>weights[i]\<close> raises \<open>IndexError\<close> out of range
  (\<open>i\<close> is never negative).
\<close>

fun build_loop ::
  "int list \<Rightarrow> (address \<rightharpoonup> address) \<Rightarrow> (address \<rightharpoonup> VoterRegistered) \<Rightarrow>
   (address \<rightharpoonup> VoterRegistrationInfo) \<Rightarrow> (nat \<times> address) list \<Rightarrow>
   Entity list \<Rightarrow> EntityMapper \<Rightarrow> py_error + (Entity list \<times> EntityMapper)"
where
  "build_loop ws spa vres vries [] ents mapper = Inr (ents, mapper)"
| "build_loop ws spa vres vries ((i, voter) # rest) ents mapper =
     (if \<not> i < length ws then Inl IndexError
      else
        (case subscript spa voter of
           Inl err \<Rightarrow> Inl err
         | Inr a \<Rightarrow>
             (case subscript vres a of
                Inl err \<Rightarrow> Inl err
              | Inr vre \<Rightarrow>
                  (case subscript vries a of
                     Inl err \<Rightarrow> Inl err
                   | Inr vrie \<Rightarrow>
                       (let entity = make_entity (ws ! i) vre vrie
                        in build_loop ws spa vres vries rest
                             (ents @ [entity]) (mapper_insert entity mapper))))))"

definition build :: "SigningPolicyBuilder \<Rightarrow> py_error + SigningPolicy" where
  "build b =
     (case builder_reward_epoch b of
        None \<Rightarrow> Inl AssertionError
      | Some re \<Rightarrow>
     (case random_acquisation_started b of
        None \<Rightarrow> Inl AssertionError
      | Some ras \<Rightarrow>
     if ras_reward_epoch_id ras \<noteq> re_id re then Inl AssertionError else
     (case vote_power_block_selected b of
        None \<Rightarrow> Inl AssertionError
      | Some vpbs \<Rightarrow>
     if vpbs_reward_epoch_id vpbs \<noteq> re_id re then Inl AssertionError else
     (case signing_policy_initialized b of
        None \<Rightarrow> Inl AssertionError
      | Some spi \<Rightarrow>
     if spi_reward_epoch_id spi \<noteq> re_id re then Inl AssertionError else
     if length (voter_registered b) \<noteq> length (voter_registration_info b)
     then Inl AssertionError else
     (let spa = dict_of (map (\<lambda>v. (vr_signing_policy_address v, vr_voter v)) (voter_registered b));
          vres = dict_of (map (\<lambda>v. (vr_voter v, v)) (voter_registered b));
          vries = dict_of (map (\<lambda>v. (vri_voter v, v)) (voter_registration_info b))
      in case build_loop (weights spi) spa vres vries (enumerate 0 (voters spi)) [] empty_mapper of
           Inl err \<Rightarrow> Inl err
         | Inr (ents, mapper) \<Rightarrow>
             Inr \<lparr>reward_epoch = re,
                  vote_power_block = vpbs_vote_power_block vpbs,
                  start_voting_round = start_voting_round_id spi,
                  threshold = spi_threshold spi,
                  seed = spi_seed spi,
                  signing_policy_bytes = spi_signing_policy_bytes spi,
                  entities = ents,
                  entity_mapper = mapper\<rparr>)))))"

text \<open>
  The preconditions of \<open>build\<close>: the reward epoch and the three singleton events are
  set, the events carry the builder's reward epoch id, as many \<open>VoterRegistered\<close> as
  \<open>VoterRegistrationInfo\<close> events were added, and every lookup of the loop is defined
  (\<open>weights[i]\<close>, \<open>spa[voter]\<close>, \<open>vres[spa[voter]]\<close>, \<open>vries[spa[voter]]\<close>).
\<close>

definition spa_of :: "SigningPolicyBuilder \<Rightarrow> (address \<rightharpoonup> address)" where
  "spa_of b = dict_of (map (\<lambda>v. (vr_signing_policy_address v, vr_voter v)) (voter_registered b))"

definition vres_of :: "SigningPolicyBuilder \<Rightarrow> (address \<rightharpoonup> VoterRegistered)" where
  "vres_of b = dict_of (map (\<lambda>v. (vr_voter v, v)) (voter_registered b))"

definition vries_of :: "SigningPolicyBuilder \<Rightarrow> (address \<rightharpoonup> VoterRegistrationInfo)" where
  "vries_of b = dict_of (map (\<lambda>v. (vri_voter v, v)) (voter_registration_info b))"

definition lookups_defined :: "SigningPolicyBuilder \<Rightarrow> SigningPolicyInitialized \<Rightarrow> bool" where
  "lookups_defined b spi \<longleftrightarrow>
     (\<forall>i < length (voters spi).
        i < length (weights spi)
        \<and> (\<exists>a. spa_of b (voters spi ! i) = Some a
               \<and> vres_of b a \<noteq> None \<and> vries_of b a \<noteq> None))"

definition build_pre :: "SigningPolicyBuilder \<Rightarrow> bool" where
  "build_pre b \<longleftrightarrow>
     (\<exists>re ras vpbs spi.
        builder_reward_epoch b = Some re
        \<and> random_acquisation_started b = Some ras \<and> ras_reward_epoch_id ras = re_id re
        \<and> vote_power_block_selected b = Some vpbs \<and> vpbs_reward_epoch_id vpbs = re_id re
        \<and> signing_policy_initialized b = Some spi \<and> spi_reward_epoch_id spi = re_id re
        \<and> length (voter_registered b) = length (voter_registration_info b)
        \<and> lookups_defined b spi)"

section \<open>Voting rounds (voting\_round.py)\<close>

text \<open>
  \<open>by_identity\<close> is a \<open>defaultdict(WParsedPayloadList)\<close>: reading a missing key gives
  an empty list, so the dictionary is a total function.
\<close>

record 'a ParsedPayloadMapper =
  by_identity :: "address \<Rightarrow> 'a WParsedPayloadList"

definition empty_payload_mapper :: "'a ParsedPayloadMapper" where
  "empty_payload_mapper = \<lparr>by_identity = (\<lambda>_. \<lparr>agg = []\<rparr>)\<rparr>"

definition payload_insert ::
  "Entity \<Rightarrow> 'a WParsedPayload \<Rightarrow> 'a ParsedPayloadMapper \<Rightarrow> 'a ParsedPayloadMapper" where
  "payload_insert e wpp m =
     m\<lparr>by_identity := (by_identity m)
          (identity_address e := \<lparr>agg = agg (by_identity m (identity_address e)) @ [wpp]\<rparr>)\<rparr>"

text \<open>
  The payload classes come from \<open>py_flare_common\<close> and \<open>ProtocolMessageRelayed\<close> from
  \<open>observer/types.py\<close>; the records hold the fields the observer reads.
\<close>

record FtsoSubmit1 =
  commit_hash :: bytes

text \<open>\<open>feed_values\<close> is the field \<open>values\<close> of \<open>FtsoSubmit2\<close>.\<close>

record FtsoSubmit2 =
  feed_values :: "int option list"

record Signature =
  sig_v :: string
  sig_r :: string
  sig_s :: string

record SubmitSignatures =
  signature :: Signature
  unsigned_message :: bytes

datatype FdcSubmit1 = FdcSubmit1

record FdcSubmit2 =
  number_of_requests :: int
  bit_vector :: "bool list"

record ProtocolMessageRelayed =
  protocol_id :: int
  pmr_voting_round_id :: int
  is_secure_random :: bool
  merkle_root :: bytes
  pmr_timestamp :: int

record ('s1, 's2, 'ss) VotingRoundProtocol =
  submit_1 :: "'s1 ParsedPayloadMapper"
  submit_2 :: "'s2 ParsedPayloadMapper"
  submit_signatures :: "'ss ParsedPayloadMapper"
  finalization :: "ProtocolMessageRelayed option"

definition insert_submit_1 ::
  "Entity \<Rightarrow> 's1 ParsedPayload \<Rightarrow> WTxData \<Rightarrow>
   ('s1, 's2, 'ss, 'z) VotingRoundProtocol_scheme \<Rightarrow> ('s1, 's2, 'ss, 'z) VotingRoundProtocol_scheme"
where
  "insert_submit_1 e pp wtx p =
     p\<lparr>submit_1 := payload_insert e \<lparr>parsed_payload = pp, wtx_data = wtx\<rparr> (submit_1 p)\<rparr>"

definition insert_submit_2 ::
  "Entity \<Rightarrow> 's2 ParsedPayload \<Rightarrow> WTxData \<Rightarrow>
   ('s1, 's2, 'ss, 'z) VotingRoundProtocol_scheme \<Rightarrow> ('s1, 's2, 'ss, 'z) VotingRoundProtocol_scheme"
where
  "insert_submit_2 e pp wtx p =
     p\<lparr>submit_2 := payload_insert e \<lparr>parsed_payload = pp, wtx_data = wtx\<rparr> (submit_2 p)\<rparr>"

definition insert_submit_signatures ::
  "Entity \<Rightarrow> 'ss ParsedPayload \<Rightarrow> WTxData \<Rightarrow>
   ('s1, 's2, 'ss, 'z) VotingRoundProtocol_scheme \<Rightarrow> ('s1, 's2, 'ss, 'z) VotingRoundProtocol_scheme"
where
  "insert_submit_signatures e pp wtx p =
     p\<lparr>submit_signatures :=
         payload_insert e \<lparr>parsed_payload = pp, wtx_data = wtx\<rparr> (submit_signatures p)\<rparr>"

type_synonym FtsoVotingRoundProtocol =
  "(FtsoSubmit1, FtsoSubmit2, SubmitSignatures) VotingRoundProtocol"

text \<open>
  \<open>consensus_bitvote\<close> is a \<open>defaultdict(int)\<close> whose iteration order (the order in
  which keys were first written) decides ties, hence an association list.
\<close>

record FdcVotingRoundProtocol =
  "(FdcSubmit1, FdcSubmit2, SubmitSignatures) VotingRoundProtocol" +
  requests :: AttestationRequestMapper
  consensus_bitvote :: "(bytes \<times> int) list"

definition empty_ftso :: FtsoVotingRoundProtocol where
  "empty_ftso = \<lparr>submit_1 = empty_payload_mapper, submit_2 = empty_payload_mapper,
     submit_signatures = empty_payload_mapper, finalization = None\<rparr>"

definition empty_fdc :: FdcVotingRoundProtocol where
  "empty_fdc = \<lparr>submit_1 = empty_payload_mapper, submit_2 = empty_payload_mapper,
     submit_signatures = empty_payload_mapper, finalization = None,
     requests = \<lparr>requests_agg = []\<rparr>, consensus_bitvote = []\<rparr>"

record VotingRound =
  voting_epoch :: voting_epoch
  ftso :: FtsoVotingRoundProtocol
  fdc :: FdcVotingRoundProtocol

text \<open>\<open>VotingRound(v)\<close>, the other fields built by their factories.\<close>

definition new_round :: "voting_epoch \<Rightarrow> VotingRound" where
  "new_round v = \<lparr>voting_epoch = v, ftso = empty_ftso, fdc = empty_fdc\<rparr>"

text \<open>
  \<open>rounds\<close> is a dictionary whose keys are iterated in insertion order by \<open>finalize\<close>:
  an association list, a new key going to the end.
\<close>

record VotingRoundManager =
  finalized :: int
  rounds :: "(voting_epoch \<times> VotingRound) list"

definition round_keys :: "VotingRoundManager \<Rightarrow> voting_epoch list" where
  "round_keys m = map fst (rounds m)"

text \<open>\<open>VotingRoundManager.get\<close> returns the round and the manager it may have extended.\<close>

definition get :: "voting_epoch \<Rightarrow> VotingRoundManager \<Rightarrow> VotingRound \<times> VotingRoundManager" where
  "get v m =
     (case map_of (rounds m) v of
        None \<Rightarrow> (new_round v, m\<lparr>rounds := AList.update v (new_round v) (rounds m)\<rparr>)
      | Some r \<Rightarrow> (r, m))"

text \<open>
  The callers of \<open>get\<close> mutate the round they receive, which is the object stored in the
  dictionary: \<open>update_round v g\<close> is \<open>g(self.get(v))\<close> for a mutation \<open>g\<close>.
\<close>

definition update_round ::
  "voting_epoch \<Rightarrow> (VotingRound \<Rightarrow> VotingRound) \<Rightarrow> VotingRoundManager \<Rightarrow> VotingRoundManager" where
  "update_round v g m =
     (case get v m of (r, m') \<Rightarrow> m'\<lparr>rounds := AList.update v (g r) (rounds m')\<rparr>)"

text \<open>
  \<open>BlockData\<close> and \<open>TxData\<close> are dictionaries of the RPC client in which a key may be
  missing; the code asserts the keys it reads. With \<open>full_transactions\<close> the elements of
  \<open>transactions\<close> are dictionaries, otherwise hashes.
\<close>

record TxData =
  tx_hash :: "bytes option"
  tx_to :: "address option"
  tx_input :: "bytes option"
  tx_blockNumber :: "int option"
  tx_transactionIndex :: "int option"
  tx_from :: "address option"
  tx_value_wei :: "int option"

datatype tx_entry = TxHash bytes | TxFull TxData

record BlockData =
  b_number :: "int option"
  b_timestamp :: "int option"
  b_transactions :: "tx_entry list option"

definition from_tx_data :: "TxData \<Rightarrow> BlockData \<Rightarrow> py_error + WTxData" where
  "from_tx_data tx_data block_data =
     (case (tx_hash tx_data, tx_input tx_data, tx_blockNumber tx_data,
            tx_transactionIndex tx_data, tx_from tx_data, tx_value_wei tx_data,
            b_timestamp block_data) of
        (Some h, Some i, Some n, Some ti, Some fr, Some vl, Some ts) \<Rightarrow>
          Inr \<lparr>hash = h, to_address = tx_to tx_data, input = i, block_number = n,
               timestamp = ts, transaction_index = ti, from_address = fr, tx_value = vl\<rparr>
      | _ \<Rightarrow> Inl AssertionError)"

text \<open>
  The loop \<open>for k in keys\<close> of \<open>VotingRoundManager.finalize\<close>, with the manager and the
  local list \<open>rounds\<close> of finalized rounds. \<open>self.rounds.pop(k)\<close> raises \<open>KeyError\<close> for a
  missing key, \<open>self.rounds.pop(k, None)\<close> does not.
\<close>

fun finalize_loop ::
  "voting_epoch_factory \<Rightarrow> int \<Rightarrow> voting_epoch list \<Rightarrow> VotingRoundManager \<Rightarrow>
   VotingRound list \<Rightarrow> py_error + (VotingRound list \<times> VotingRoundManager)"
where
  "finalize_loop f ts [] m out = Inr (out, m)"
| "finalize_loop f ts (k # ks) m out =
     (if ve_id k \<le> finalized m
      then finalize_loop f ts ks (m\<lparr>rounds := AList.delete k (rounds m)\<rparr>) out
      else if end_s f (ve_next k) < ts
      then (case map_of (rounds m) k of
              None \<Rightarrow> Inl KeyError
            | Some r \<Rightarrow>
                finalize_loop f ts ks
                  (m\<lparr>finalized := max (finalized m) (ve_id k),
                     rounds := AList.delete k (rounds m)\<rparr>)
                  (out @ [r]))
      else finalize_loop f ts ks m out)"

definition finalize ::
  "voting_epoch_factory \<Rightarrow> BlockData \<Rightarrow> VotingRoundManager \<Rightarrow>
   py_error + (VotingRound list \<times> VotingRoundManager)"
where
  "finalize f blk m =
     (case b_timestamp blk of
        None \<Rightarrow> Inl AssertionError
      | Some ts \<Rightarrow> finalize_loop f ts (round_keys m) m [])"

text \<open>
  A sequence of calls on one manager. \<open>run\<close> returns what each \<open>finalize\<close> call returned,
  in order, and the final manager; an exception ends the sequence.
\<close>

datatype vrm_call = Get voting_epoch | Finalize BlockData

fun run ::
  "voting_epoch_factory \<Rightarrow> vrm_call list \<Rightarrow> VotingRoundManager \<Rightarrow>
   py_error + (VotingRound list list \<times> VotingRoundManager)"
where
  "run f [] m = Inr ([], m)"
| "run f (Get v # cs) m = run f cs (snd (get v m))"
| "run f (Finalize blk # cs) m =
     (case finalize f blk m of
        Inl err \<Rightarrow> Inl err
      | Inr (out, m') \<Rightarrow>
          (case run f cs m' of
             Inl err \<Rightarrow> Inl err
           | Inr (outs, m'') \<Rightarrow> Inr (out # outs, m'')))"

text \<open>Every key stores the round of that epoch, as \<open>get\<close> creates them.\<close>

definition keyed :: "VotingRoundManager \<Rightarrow> bool" where
  "keyed m \<longleftrightarrow> (\<forall>(k, r) \<in> set (rounds m). voting_epoch r = k)"

definition live_above_finalized :: "VotingRoundManager \<Rightarrow> bool" where
  "live_above_finalized m \<longleftrightarrow> (\<forall>k \<in> set (round_keys m). finalized m < ve_id k)"

definition round_ids :: "VotingRound list \<Rightarrow> int set" where
  "round_ids out = (\<lambda>r. ve_id (voting_epoch r)) ` set out"

section \<open>The consensus bitvote of the FDC validator (observer.py)\<close>

text \<open>
  The test \<open>(byte >> shift) & 1 == 1\<close> on a byte (a Python \<open>int\<close> between 0 and 255).
\<close>

definition shifted_bit :: "byte \<Rightarrow> nat \<Rightarrow> bool" where
  "shifted_bit b shift \<longleftrightarrow> and (drop_bit shift b) 1 = 1"

text \<open>
  The inner loop \<open>for shift in range(8)\<close> of \<open>validate_fdc\<close>, for the byte \<open>b\<close> at index
  \<open>j\<close> of the reversed votes; \<open>cb\<close> is the list \<open>consensus_bitvote\<close>. The index \<open>i\<close> is
  at most \<open>n_requests - 1\<close>, so the assignment \<open>consensus_bitvote[i] = ...\<close> is in range.
\<close>

fun inflate_shifts :: "nat \<Rightarrow> nat \<Rightarrow> byte \<Rightarrow> nat list \<Rightarrow> bool list \<Rightarrow> py_error + bool list" where
  "inflate_shifts n_requests j b [] cb = Inr cb"
| "inflate_shifts n_requests j b (shift # shifts) cb =
     (let i = int n_requests - 1 - int j * 8 - int shift in
      if i < 0 \<and> shifted_bit b shift then Inl (ValueError ''Invalid payload length.'')
      else if i \<ge> 0 then inflate_shifts n_requests j b shifts (cb[nat i := shifted_bit b shift])
      else inflate_shifts n_requests j b shifts cb)"

text \<open>The outer loop \<open>for j, byte in enumerate(reversed(votes))\<close>.\<close>

fun inflate_bytes :: "nat \<Rightarrow> (nat \<times> byte) list \<Rightarrow> bool list \<Rightarrow> py_error + bool list" where
  "inflate_bytes n_requests [] cb = Inr cb"
| "inflate_bytes n_requests ((j, b) # rest) cb =
     (case inflate_shifts n_requests j b [0..<8] cb of
        Inl err \<Rightarrow> Inl err
      | Inr cb' \<Rightarrow> inflate_bytes n_requests rest cb')"

definition inflate :: "nat \<Rightarrow> bytes \<Rightarrow> py_error + bool list" where
  "inflate n_requests votes =
     inflate_bytes n_requests (enumerate 0 (rev votes)) (replicate n_requests False)"

text \<open>
  The packed encoding, in the words of the specification: bit position \<open>p\<close> counts from the
  least significant bit of the last byte, so position \<open>p\<close> is bit \<open>p mod 8\<close> of the byte at
  index \<open>p div 8\<close> of the reversed bytes; a position beyond the bytes holds no bit. The
  encoding of a boolean array of length \<open>n\<close> stores element \<open>i\<close> at position \<open>n - 1 - i\<close>
  in \<open>(n + 7) div 8\<close> bytes.
\<close>

definition bit_at :: "bytes \<Rightarrow> nat \<Rightarrow> bool" where
  "bit_at votes p \<longleftrightarrow> p div 8 < length votes \<and> bit (rev votes ! (p div 8)) (p mod 8)"

definition pack_bits :: "bool list \<Rightarrow> bytes" where
  "pack_bits bs =
     rev (map (\<lambda>j. horner_sum of_bool 2
                 (map (\<lambda>s. j * 8 + s < length bs \<and> bs ! (length bs - 1 - (j * 8 + s))) [0..<8]))
            [0..<(length bs + 7) div 8])"

section \<open>Messages and configuration\<close>

text \<open>
  \<open>Message\<close>, \<open>MessageLevel\<close> and the message builder are declared in
  \<open>observer/message.py\<close>, \<open>Configuration\<close> in \<open>configuration/types.py\<close>, both outside
  the sources. A message built by \<open>mb.build(level, text)\<close> carries what was given to
  \<open>Message.builder().add(...)\<close>. Of the configuration the validators read the chain id
  and the voting epoch factory.
\<close>

datatype MessageLevel = INFO | WARNING | ERROR | CRITICAL

record Message =
  network :: int
  msg_round :: "voting_epoch option"
  protocol :: "int option"
  level :: MessageLevel
  message :: string

record Configuration =
  chain_id :: int
  epoch_factory :: voting_epoch_factory

definition mb_build :: "Configuration \<Rightarrow> VotingRound \<Rightarrow> int \<Rightarrow> MessageLevel \<Rightarrow> string \<Rightarrow> Message" where
  "mb_build config rnd proto lvl text =
     \<lparr>network = chain_id config, msg_round = Some (voting_epoch rnd), protocol = Some proto,
      level = lvl, message = text\<rparr>"

text \<open>
  The collaborators outside the observer package, as parameters; each may raise.
  \<open>reveal_hash input submit_address epoch_id\<close> stands for lines 282 to 286 of observer.py
  (\<open>parse_generic_tx(input).ftso.payload\<close>, \<open>uint256\<close>, \<open>drain\<close>, \<open>commit_hash\<close>);
  \<open>recover_address signature finalization\<close> for \<open>Signature.from_vrs\<close>,
  \<open>recover_public_key_from_msg_hash(finalization.to_message())\<close> and
  \<open>to_checksum_address\<close>; the three parsers for \<open>parse_submit1_tx\<close>,
  \<open>parse_submit2_tx\<close> and \<open>parse_submit_signature_tx\<close>, which return an object with an
  optional \<open>ftso\<close> and an optional \<open>fdc\<close> payload, from the calldata as a hexadecimal string.
\<close>

record ('a, 'b) ParsedMessage =
  parsed_ftso :: "'a ParsedPayload option"
  parsed_fdc :: "'b ParsedPayload option"

record external =
  reveal_hash :: "bytes \<Rightarrow> address \<Rightarrow> int \<Rightarrow> py_error + string"
  recover_address :: "Signature \<Rightarrow> ProtocolMessageRelayed \<Rightarrow> py_error + address"
  parse_submit1_tx :: "string \<Rightarrow> py_error + (FtsoSubmit1, FdcSubmit1) ParsedMessage"
  parse_submit2_tx :: "string \<Rightarrow> py_error + (FtsoSubmit2, FdcSubmit2) ParsedMessage"
  parse_submit_signature_tx ::
    "string \<Rightarrow> py_error + (SubmitSignatures, SubmitSignatures) ParsedMessage"

section \<open>Strings built by the validators\<close>

definition digit_char :: "nat \<Rightarrow> char" where
  "digit_char d = char_of (48 + d)"

text \<open>\<open>str(n)\<close> for a natural number and for an integer.\<close>

function str_nat :: "nat \<Rightarrow> string" where
  "str_nat n = (if n < 10 then [digit_char n] else str_nat (n div 10) @ [digit_char (n mod 10)])"
  by pat_completeness auto
termination
  by (relation "measure id") auto

definition str_int :: "int \<Rightarrow> string" where
  "str_int i = (if i < 0 then CHR ''-'' # str_nat (nat (- i)) else str_nat (nat i))"

fun join :: "string \<Rightarrow> string list \<Rightarrow> string" where
  "join sep [] = []"
| "join sep [x] = x"
| "join sep (x # y # ys) = x @ sep @ join sep (y # ys)"

definition hex_digit :: "nat \<Rightarrow> char" where
  "hex_digit d = (if d < 10 then char_of (48 + d) else char_of (87 + d))"

text \<open>\<open>bytes.hex()\<close>.\<close>

definition hex :: "bytes \<Rightarrow> string" where
  "hex bs = concat (map (\<lambda>b. [hex_digit (unat b div 16), hex_digit (unat b mod 16)]) bs)"

section \<open>The FTSO validator (observer.py)\<close>

text \<open>
  \<open>(finalization and finalization.timestamp + 1) or 0\<close>: \<open>x or 0\<close> is \<open>x\<close> unless
  \<open>x\<close> is falsy (\<open>None\<close> or \<open>0\<close>).
\<close>

definition sig_grace ::
  "voting_epoch_factory \<Rightarrow> voting_epoch \<Rightarrow> ProtocolMessageRelayed option \<Rightarrow> int" where
  "sig_grace f epoch fin =
     max (start_s f (ve_next epoch) + 55 + 1)
         (case fin of
            None \<Rightarrow> 0
          | Some e \<Rightarrow> if pmr_timestamp e + 1 \<noteq> 0 then pmr_timestamp e + 1 else 0)"

text \<open>The three time windows of a round.\<close>

definition submit_1_window :: "voting_epoch_factory \<Rightarrow> voting_epoch \<Rightarrow> py_range" where
  "submit_1_window f epoch = Range (start_s f epoch) (end_s f epoch)"

definition submit_2_window :: "voting_epoch_factory \<Rightarrow> voting_epoch \<Rightarrow> py_range" where
  "submit_2_window f epoch = Range (start_s f (ve_next epoch)) (reveal_deadline f (ve_next epoch))"

definition submit_sig_window ::
  "voting_epoch_factory \<Rightarrow> voting_epoch \<Rightarrow> ProtocolMessageRelayed option \<Rightarrow> py_range" where
  "submit_sig_window f epoch fin = Range (reveal_deadline f (ve_next epoch)) (sig_grace f epoch fin)"

text \<open>The check \<open>if finalization and ss\<close>, shared by the two validators.\<close>

definition signature_issue ::
  "external \<Rightarrow> (MessageLevel \<Rightarrow> string \<Rightarrow> Message) \<Rightarrow> Entity \<Rightarrow>
   ProtocolMessageRelayed option \<Rightarrow> SubmitSignatures WParsedPayload option \<Rightarrow>
   py_error + Message list"
where
  "signature_issue X mb entity fin submit_sig =
     (case (fin, submit_sig) of
        (Some e, Some ss) \<Rightarrow>
          (case recover_address X (signature (payload (parsed_payload ss))) e of
             Inl err \<Rightarrow> Inl err
           | Inr addr \<Rightarrow>
               Inr (if addr \<noteq> signing_policy_address entity
                    then [mb ERROR ''submit signatures signature doesn't match finalization'']
                    else []))
      | _ \<Rightarrow> Inr [])"

text \<open>The check \<open>if s1 and s2\<close> of the FTSO validator.\<close>

definition reveal_issue ::
  "external \<Rightarrow> (MessageLevel \<Rightarrow> string \<Rightarrow> Message) \<Rightarrow> Entity \<Rightarrow> voting_epoch \<Rightarrow>
   FtsoSubmit1 WParsedPayload option \<Rightarrow> FtsoSubmit2 WParsedPayload option \<Rightarrow>
   py_error + Message list"
where
  "reveal_issue X mb entity epoch s1 s2 =
     (case (s1, s2) of
        (Some p1, Some p2) \<Rightarrow>
          (case reveal_hash X (input (wtx_data p2)) (submit_address entity) (ve_id epoch) of
             Inl err \<Rightarrow> Inl err
           | Inr hashed \<Rightarrow>
               Inr (if hex (commit_hash (payload (parsed_payload p1))) \<noteq> hashed
                    then [mb CRITICAL ''commit hash and reveal didn't match, causing reveal offence'']
                    else []))
      | _ \<Rightarrow> Inr [])"

definition validate_ftso ::
  "external \<Rightarrow> VotingRound \<Rightarrow> Entity \<Rightarrow> Configuration \<Rightarrow> py_error + Message list" where
  "validate_ftso X rnd entity config =
     (let mb = mb_build config rnd 100;
          f = epoch_factory config;
          epoch = voting_epoch rnd;
          fin = finalization (ftso rnd);
          s1 = extract_latest (by_identity (submit_1 (ftso rnd)) (identity_address entity))
                 (submit_1_window f epoch);
          s2 = extract_latest (by_identity (submit_2 (ftso rnd)) (identity_address entity))
                 (submit_2_window f epoch);
          submit_sig =
               extract_latest (by_identity (submit_signatures (ftso rnd)) (identity_address entity))
                 (submit_sig_window f epoch fin);
          issues1 = (if s1 = None then [mb INFO ''no submit1 transaction''] else []);
          issues2 = (if s1 \<noteq> None \<and> s2 = None
                     then [mb CRITICAL ''no submit2 transaction, causing reveal offence'']
                     else []);
          issues3 =
            (case s2 of
               None \<Rightarrow> []
             | Some p2 \<Rightarrow>
                 (let indices = map (\<lambda>(i, v). str_nat i)
                        (filter (\<lambda>(i, v). v = None)
                           (enumerate 0 (feed_values (payload (parsed_payload p2)))))
                  in if indices \<noteq> []
                     then [mb WARNING (''submit 2 had 'None' on indices '' @ join '', '' indices)]
                     else []))
      in case reveal_issue X mb entity epoch s1 s2 of
           Inl err \<Rightarrow> Inl err
         | Inr issues4 \<Rightarrow>
             (let issues5 = (if submit_sig = None
                             then [mb ERROR ''no submit signatures transaction''] else [])
              in case signature_issue X mb entity fin submit_sig of
                   Inl err \<Rightarrow> Inl err
                 | Inr issues6 \<Rightarrow>
                     Inr (issues1 @ issues2 @ issues3 @ issues4 @ issues5 @ issues6)))"

section \<open>The FDC validator (observer.py)\<close>

text \<open>
  \<open>sorted(fdc.consensus_bitvote.items(), key=lambda x: x[1], reverse=True)[0][0]\<close>: the
  sort is stable also with \<open>reverse=True\<close>, so it is the stable sort by descending
  count; \<open>[0]\<close> on an empty list raises \<open>IndexError\<close>.
\<close>

definition first_item :: "'a list \<Rightarrow> py_error + 'a" where
  "first_item xs = (case xs of [] \<Rightarrow> Inl IndexError | x # _ \<Rightarrow> Inr x)"

definition most_voted :: "(bytes \<times> int) list \<Rightarrow> py_error + bytes" where
  "most_voted items =
     (case first_item (sort_key (\<lambda>x. - snd x) items) of
        Inl err \<Rightarrow> Inl err
      | Inr item \<Rightarrow> Inr (fst item))"

text \<open>
  Modelled from the spec: \<open>ByteParser\<close> lives in \<open>py_flare_common\<close>. The payload is
  parsed as \<open>(n_requests: uint16, remainder: bytes)\<close>: two bytes, big-endian, then
  \<open>drain()\<close>; fewer than two bytes raise.
\<close>

definition uint16_drain :: "bytes \<Rightarrow> py_error + (nat \<times> bytes)" where
  "uint16_drain bs =
     (case bs of
        b1 # b2 # rest \<Rightarrow> Inr (unat b1 * 256 + unat b2, rest)
      | _ \<Rightarrow> Inl (Raised ''ParseError''))"

text \<open>
  The loop over \<open>zip(sorted_requests, bit_vector, consensus_bitvote)\<close>: one message for
  each position where the consensus bit is set and the submitted bit is not.
\<close>

definition unconfirmed ::
  "(MessageLevel \<Rightarrow> string \<Rightarrow> Message) \<Rightarrow> nat \<Rightarrow> AttestationRequest list \<Rightarrow> bool list \<Rightarrow>
   bool list \<Rightarrow> Message list"
where
  "unconfirmed mb n_requests sorted_requests bits cbits =
     concat (map (\<lambda>(i, r, b, cbit).
                    if cbit \<and> \<not> b
                    then [mb ERROR
                           (''submit2 didn't confirm request that was part of consensus ''
                            @ representation (attestation_type r) @ ''/''
                            @ representation (source_id r) @ '' at index ''
                            @ str_int (int n_requests - 1 - int i))]
                    else [])
              (enumerate 0 (zip sorted_requests (zip bits cbits))))"

definition validate_fdc ::
  "external \<Rightarrow> VotingRound \<Rightarrow> Entity \<Rightarrow> Configuration \<Rightarrow> py_error + Message list" where
  "validate_fdc X rnd entity config =
     (let mb = mb_build config rnd 200;
          f = epoch_factory config;
          epoch = voting_epoch rnd;
          fin = finalization (fdc rnd);
          s1 = extract_latest (by_identity (submit_1 (fdc rnd)) (identity_address entity))
                 (submit_1_window f epoch);
          s2 = extract_latest (by_identity (submit_2 (fdc rnd)) (identity_address entity))
                 (submit_2_window f epoch);
          submit_sig =
               extract_latest (by_identity (submit_signatures (fdc rnd)) (identity_address entity))
                 (submit_sig_window f epoch fin);
          submit_sig_deadline =
               extract_latest (by_identity (submit_signatures (fdc rnd)) (identity_address entity))
                 (Range (reveal_deadline f (ve_next epoch)) (end_s f (ve_next epoch)))
      in case most_voted (consensus_bitvote (fdc rnd)) of
           Inl err \<Rightarrow> Inl err
         | Inr bitvote \<Rightarrow>
      (case uint16_drain bitvote of
           Inl err \<Rightarrow> Inl err
         | Inr (n_requests, votes) \<Rightarrow>
      (case inflate n_requests votes of
           Inl err \<Rightarrow> Inl err
         | Inr cbits \<Rightarrow>
      (let sorted_requests = requests_sorted (requests (fdc rnd))
       in if length sorted_requests \<noteq> n_requests then Inl AssertionError
          else
      (let issues2 = (if s2 = None then [mb ERROR ''no submit2 transaction''] else []);
           checked =
             (case s2 of
                None \<Rightarrow> ([], True)
              | Some p2 \<Rightarrow>
                  if number_of_requests (payload (parsed_payload p2)) \<noteq> int (length sorted_requests)
                  then ([mb ERROR ''submit 2 length didn't match number of requests in round''],
                        False)
                  else (let errs = unconfirmed mb n_requests sorted_requests
                                     (bit_vector (payload (parsed_payload p2))) cbits
                        in (errs, errs = [])));
           expected_signatures = snd checked;
           issues3 = (if s2 \<noteq> None \<and> expected_signatures \<and> submit_sig_deadline = None
                      then [mb CRITICAL ''no submit signatures transaction, causing reveal offence'']
                      else []);
           issues4 = (if s2 \<noteq> None \<and> submit_sig_deadline \<noteq> None \<and> submit_sig = None
                      then [mb ERROR (''no submit signatures transaction during grace period, ''
                                      @ ''causing loss of rewards'')]
                      else []);
           issues5 = (if s2 = None \<and> submit_sig = None
                      then [mb ERROR ''no submit signatures transaction''] else [])
       in case signature_issue X mb entity fin submit_sig of
            Inl err \<Rightarrow> Inl err
          | Inr issues6 \<Rightarrow>
              Inr (issues2 @ fst checked @ issues3 @ issues4 @ issues5 @ issues6))))))"

section \<open>The ingestion loop (observer.py)\<close>

text \<open>
  Modelled from the spec: \<open>VotingEpochFactory.from_timestamp\<close> lives in
  \<open>py_flare_common\<close>; it maps a timestamp to the fixed-length epoch that contains it,
  by a floor division, which raises for a length of zero.
\<close>

definition from_timestamp :: "voting_epoch_factory \<Rightarrow> int \<Rightarrow> py_error + voting_epoch" where
  "from_timestamp f ts =
     (if epoch_duration f = 0 then Inl ZeroDivisionError
      else Inr (VotingEpoch ((ts - first_epoch_epoc f) div epoch_duration f)))"

text \<open>
  Modelled from the spec: the equality of \<open>VotingEpoch\<close> is declared in
  \<open>py_flare_common\<close>: two voting epochs with equal id compare equal. The class has no
  comparison with integers, so for an \<open>int\<close> and a \<open>VotingEpoch\<close> both \<open>__eq__\<close>
  methods decline and Python's \<open>==\<close> falls back to the identity of the two objects,
  which is \<open>False\<close>.
\<close>

datatype py_object = PyInt int | PyVotingEpoch voting_epoch

fun py_eq :: "py_object \<Rightarrow> py_object \<Rightarrow> bool" where
  "py_eq (PyInt x) (PyInt y) = (x = y)"
| "py_eq (PyVotingEpoch x) (PyVotingEpoch y) = (x = y)"
| "py_eq (PyInt x) (PyVotingEpoch y) = False"
| "py_eq (PyVotingEpoch x) (PyInt y) = False"

text \<open>
  Lines 594 to 603: the test compares the integer \<open>start_voting_round_id\<close> with the
  object \<open>voting_epoch\<close>. The state is the pair \<open>(signing_policy, spb)\<close>.
\<close>

definition policy_rollover ::
  "voting_epoch \<Rightarrow> SigningPolicy \<times> SigningPolicyBuilder \<Rightarrow>
   py_error + (SigningPolicy \<times> SigningPolicyBuilder)"
where
  "policy_rollover ve st =
     (case st of (signing_policy, spb) \<Rightarrow>
        (case signing_policy_initialized spb of
           None \<Rightarrow> Inr (signing_policy, spb)
         | Some spi \<Rightarrow>
             if py_eq (PyInt (start_voting_round_id spi)) (PyVotingEpoch ve)
             then (case build spb of
                     Inl err \<Rightarrow> Inl err
                   | Inr sp \<Rightarrow> Inr (sp, for_epoch (re_next (reward_epoch sp)) builder))
             else Inr (signing_policy, spb)))"

text \<open>
  The decoded logs of a block. Decoding (\<open>get_event_data\<close>, \<open>from_dict\<close>) is outside the
  sources; a log whose signature is unknown or whose event has no case is \<open>LogOther\<close>.
  Modelled from the spec: \<open>AttestationRequest.from_dict(data, voting_epoch)\<close> gives the
  request the voting epoch of the block as its \<open>voting_epoch_id\<close>.
\<close>

datatype log_event =
    LogProtocolMessageRelayed ProtocolMessageRelayed
  | LogAttestationRequest AttestationRequest
  | LogPolicy policy_event
  | LogOther

text \<open>The body of the loop \<open>for log in block_logs\<close>; the state is \<open>(spb, vrm)\<close>.\<close>

fun process_log ::
  "voting_epoch \<Rightarrow> log_event \<Rightarrow> SigningPolicyBuilder \<times> VotingRoundManager \<Rightarrow>
   py_error + (SigningPolicyBuilder \<times> VotingRoundManager)"
where
  "process_log ve (LogProtocolMessageRelayed e) (spb, vrm) =
     Inr (spb,
          update_round (VotingEpoch (pmr_voting_round_id e))
            (\<lambda>r. let r1 = (if protocol_id e = 100
                            then r\<lparr>ftso := (ftso r)\<lparr>finalization := Some e\<rparr>\<rparr> else r)
                  in (if protocol_id e = 200
                      then r1\<lparr>fdc := (fdc r1)\<lparr>finalization := Some e\<rparr>\<rparr> else r1))
            vrm)"
| "process_log ve (LogAttestationRequest e0) (spb, vrm) =
     (let e = e0\<lparr>voting_epoch_id := ve\<rparr>
      in Inr (spb,
              update_round (voting_epoch_id e)
                (\<lambda>r. r\<lparr>fdc := (fdc r)\<lparr>requests :=
                         \<lparr>requests_agg = requests_agg (requests (fdc r)) @ [e]\<rparr>\<rparr>\<rparr>)
                vrm))"
| "process_log ve (LogPolicy e) (spb, vrm) =
     (case add e spb of Inl err \<Rightarrow> Inl err | Inr spb' \<Rightarrow> Inr (spb', vrm))"
| "process_log ve LogOther (spb, vrm) = Inr (spb, vrm)"

fun process_logs ::
  "voting_epoch \<Rightarrow> log_event list \<Rightarrow> SigningPolicyBuilder \<times> VotingRoundManager \<Rightarrow>
   py_error + (SigningPolicyBuilder \<times> VotingRoundManager)"
where
  "process_logs ve [] st = Inr st"
| "process_logs ve (l # ls) st =
     (case process_log ve l st of Inl err \<Rightarrow> Inl err | Inr st' \<Rightarrow> process_logs ve ls st')"

text \<open>
  What the three \<open>try\<close> bodies do once the calldata is parsed; none of these steps raises.
  \<open>consensus_bitvote[k] += 1\<close> on a \<open>defaultdict(int)\<close> starts a missing key at 0.
\<close>

definition ingest_submit_1 ::
  "Entity \<Rightarrow> WTxData \<Rightarrow> (FtsoSubmit1, FdcSubmit1) ParsedMessage \<Rightarrow> VotingRoundManager \<Rightarrow>
   VotingRoundManager"
where
  "ingest_submit_1 entity wtx parsed vrm =
     (let vrm1 = (case parsed_ftso parsed of
                    None \<Rightarrow> vrm
                  | Some p \<Rightarrow> update_round (VotingEpoch (voting_round_id p))
                               (\<lambda>r. r\<lparr>ftso := insert_submit_1 entity p wtx (ftso r)\<rparr>) vrm)
      in (case parsed_fdc parsed of
            None \<Rightarrow> vrm1
          | Some p \<Rightarrow> update_round (VotingEpoch (voting_round_id p))
                       (\<lambda>r. r\<lparr>fdc := insert_submit_1 entity p wtx (fdc r)\<rparr>) vrm1))"

definition ingest_submit_2 ::
  "Entity \<Rightarrow> WTxData \<Rightarrow> (FtsoSubmit2, FdcSubmit2) ParsedMessage \<Rightarrow> VotingRoundManager \<Rightarrow>
   VotingRoundManager"
where
  "ingest_submit_2 entity wtx parsed vrm =
     (let vrm1 = (case parsed_ftso parsed of
                    None \<Rightarrow> vrm
                  | Some p \<Rightarrow> update_round (VotingEpoch (voting_round_id p))
                               (\<lambda>r. r\<lparr>ftso := insert_submit_2 entity p wtx (ftso r)\<rparr>) vrm)
      in (case parsed_fdc parsed of
            None \<Rightarrow> vrm1
          | Some p \<Rightarrow> update_round (VotingEpoch (voting_round_id p))
                       (\<lambda>r. r\<lparr>fdc := insert_submit_2 entity p wtx (fdc r)\<rparr>) vrm1))"

definition increment :: "bytes \<Rightarrow> (bytes \<times> int) list \<Rightarrow> (bytes \<times> int) list" where
  "increment k d = AList.update k ((case map_of d k of None \<Rightarrow> 0 | Some c \<Rightarrow> c) + 1) d"

definition ingest_submit_signatures ::
  "Entity \<Rightarrow> WTxData \<Rightarrow> (SubmitSignatures, SubmitSignatures) ParsedMessage \<Rightarrow>
   VotingRoundManager \<Rightarrow> VotingRoundManager"
where
  "ingest_submit_signatures entity wtx parsed vrm =
     (let vrm1 = (case parsed_ftso parsed of
                    None \<Rightarrow> vrm
                  | Some p \<Rightarrow> update_round (VotingEpoch (voting_round_id p))
                               (\<lambda>r. r\<lparr>ftso := insert_submit_signatures entity p wtx (ftso r)\<rparr>) vrm)
      in (case parsed_fdc parsed of
            None \<Rightarrow> vrm1
          | Some p \<Rightarrow>
              update_round (VotingEpoch (voting_round_id p))
                (\<lambda>r. let fdc1 = insert_submit_signatures entity p wtx (fdc r)
                      in r\<lparr>fdc := fdc1\<lparr>consensus_bitvote :=
                             increment (unsigned_message (payload p)) (consensus_bitvote fdc1)\<rparr>\<rparr>)
                vrm1))"

text \<open>
  The body of a \<open>try\<close> block: parse, then ingest. Only the parser raises, before the
  manager is touched.
\<close>

definition try_body ::
  "(string \<Rightarrow> py_error + 'p) \<Rightarrow> ('p \<Rightarrow> VotingRoundManager \<Rightarrow> VotingRoundManager) \<Rightarrow> string \<Rightarrow>
   VotingRoundManager \<Rightarrow> py_error + VotingRoundManager"
where
  "try_body parse ingest inp vrm =
     (case parse inp of Inl err \<Rightarrow> Inl err | Inr parsed \<Rightarrow> Inr (ingest parsed vrm))"

text \<open>\<open>except Exception: pass\<close>: the manager is as it was when the body raised.\<close>

definition except_pass :: "VotingRoundManager \<Rightarrow> py_error + VotingRoundManager \<Rightarrow> VotingRoundManager" where
  "except_pass vrm res = (case res of Inl err \<Rightarrow> vrm | Inr vrm' \<Rightarrow> vrm')"

text \<open>
  The body of the loop \<open>for tx in block_data["transactions"]\<close>. \<open>targets\<close> is the
  dictionary \<open>target_function_signatures\<close>, from the selector (the hexadecimal string of
  the first four bytes) to a name. An exception outside the \<open>try\<close> blocks (the
  assertions) propagates.
\<close>

definition process_tx ::
  "external \<Rightarrow> (string \<rightharpoonup> string) \<Rightarrow> SigningPolicy \<Rightarrow> BlockData \<Rightarrow> tx_entry \<Rightarrow>
   VotingRoundManager \<Rightarrow> py_error + VotingRoundManager"
where
  "process_tx X targets signing_policy block_data tx vrm =
     (case tx of
        TxHash _ \<Rightarrow> Inl AssertionError
      | TxFull tx_data \<Rightarrow>
          (case from_tx_data tx_data block_data of
             Inl err \<Rightarrow> Inl err
           | Inr wtx \<Rightarrow>
               (let called_function_sig = hex (take 4 (input wtx));
                    inp = hex (drop 4 (input wtx));
                    sender_address = from_address wtx
                in case by_omni (entity_mapper signing_policy) sender_address of
                     None \<Rightarrow> Inr vrm
                   | Some entity \<Rightarrow>
                       (case targets called_function_sig of
                          None \<Rightarrow> Inr vrm
                        | Some mode \<Rightarrow>
                            if mode = ''submit1''
                            then Inr (except_pass vrm
                                   (try_body (parse_submit1_tx X) (ingest_submit_1 entity wtx) inp vrm))
                            else if mode = ''submit2''
                            then Inr (except_pass vrm
                                   (try_body (parse_submit2_tx X) (ingest_submit_2 entity wtx) inp vrm))
                            else if mode = ''submitSignatures''
                            then Inr (except_pass vrm
                                   (try_body (parse_submit_signature_tx X)
                                      (ingest_submit_signatures entity wtx) inp vrm))
                            else Inr vrm))))"

fun process_txs ::
  "external \<Rightarrow> (string \<rightharpoonup> string) \<Rightarrow> SigningPolicy \<Rightarrow> BlockData \<Rightarrow> tx_entry list \<Rightarrow>
   VotingRoundManager \<Rightarrow> py_error + VotingRoundManager"
where
  "process_txs X targets signing_policy block_data [] vrm = Inr vrm"
| "process_txs X targets signing_policy block_data (tx # txs) vrm =
     (case process_tx X targets signing_policy block_data tx vrm of
        Inl err \<Rightarrow> Inl err
      | Inr vrm' \<Rightarrow> process_txs X targets signing_policy block_data txs vrm')"

text \<open>
  The validators run on every finalized round, for the entity of the configured identity
  \<open>tia\<close> (\<open>by_identity_address[tia]\<close> raises \<open>KeyError\<close> for an identity that is not
  in the policy). The result is the list of issues given to \<open>log_issue\<close>, in order, and
  the exception that ended the loop, if any: the issues of the FTSO validator are emitted
  before the FDC validator runs.
\<close>

fun validate_rounds ::
  "external \<Rightarrow> Configuration \<Rightarrow> SigningPolicy \<Rightarrow> address \<Rightarrow> VotingRound list \<Rightarrow>
   Message list \<times> py_error option"
where
  "validate_rounds X config signing_policy tia [] = ([], None)"
| "validate_rounds X config signing_policy tia (r # rs) =
     (case subscript (by_identity_address (entity_mapper signing_policy)) tia of
        Inl err \<Rightarrow> ([], Some err)
      | Inr entity \<Rightarrow>
     (case validate_ftso X r entity config of
        Inl err \<Rightarrow> ([], Some err)
      | Inr issues_ftso \<Rightarrow>
     (case validate_fdc X r entity config of
        Inl err \<Rightarrow> (issues_ftso, Some err)
      | Inr issues_fdc \<Rightarrow>
     (case validate_rounds X config signing_policy tia rs of
        (issues, raised) \<Rightarrow> (issues_ftso @ issues_fdc @ issues, raised)))))"

record observer_state =
  signing_policy :: SigningPolicy
  spb :: SigningPolicyBuilder
  vrm :: VotingRoundManager

text \<open>
  The body of the loop \<open>for block in range(block_number, latest_block)\<close>, for a block and
  the logs the node returns for it: rollover, logs, transactions, finalization and
  validation. It returns the issues emitted and either the new state or the exception that
  ends the observer.
\<close>

definition process_block ::
  "external \<Rightarrow> (string \<rightharpoonup> string) \<Rightarrow> Configuration \<Rightarrow> address \<Rightarrow> BlockData \<Rightarrow> log_event list \<Rightarrow>
   observer_state \<Rightarrow> Message list \<times> (py_error + observer_state)"
where
  "process_block X targets config tia block_data block_logs st =
     (case (b_transactions block_data, b_timestamp block_data) of
        (Some txs, Some block_ts) \<Rightarrow>
          (case from_timestamp (epoch_factory config) block_ts of
                Inl err \<Rightarrow> ([], Inl err)
              | Inr ve \<Rightarrow>
           (case policy_rollover ve (signing_policy st, spb st) of
                Inl err \<Rightarrow> ([], Inl err)
              | Inr (sp, spb1) \<Rightarrow>
           (case process_logs ve block_logs (spb1, vrm st) of
                Inl err \<Rightarrow> ([], Inl err)
              | Inr (spb2, vrm1) \<Rightarrow>
           (case process_txs X targets sp block_data txs vrm1 of
                Inl err \<Rightarrow> ([], Inl err)
              | Inr vrm2 \<Rightarrow>
           (case finalize (epoch_factory config) block_data vrm2 of
                Inl err \<Rightarrow> ([], Inl err)
              | Inr (rounds_out, vrm3) \<Rightarrow>
           (case validate_rounds X config sp tia rounds_out of
                (issues, Some err) \<Rightarrow> (issues, Inl err)
              | (issues, None) \<Rightarrow>
                  (issues, Inr \<lparr>signing_policy = sp, spb = spb2, vrm = vrm3\<rparr>)))))))
      | _ \<Rightarrow> ([], Inl AssertionError))"

text \<open>
  The loop over the blocks, each with the logs the node returns for it; an exception ends
  the observer.
\<close>

fun process_blocks ::
  "external \<Rightarrow> (string \<rightharpoonup> string) \<Rightarrow> Configuration \<Rightarrow> address \<Rightarrow>
   (BlockData \<times> log_event list) list \<Rightarrow> observer_state \<Rightarrow>
   Message list \<times> (py_error + observer_state)"
where
  "process_blocks X targets config tia [] st = ([], Inr st)"
| "process_blocks X targets config tia ((block_data, block_logs) # rest) st =
     (case process_block X targets config tia block_data block_logs st of
        (issues, Inl err) \<Rightarrow> (issues, Inl err)
      | (issues, Inr st') \<Rightarrow>
          (case process_blocks X targets config tia rest st' of
             (issues', res) \<Rightarrow> (issues @ issues', res)))"

text \<open>
  The state with which the loop starts: the policy that \<open>get_signing_policy_events\<close>
  returned (line 498), \<open>spb = SigningPolicy.builder()\<close> (line 505, a builder on which
  \<open>for_epoch\<close> was not called) and \<open>VotingRoundManager(voting_epoch.previous.id)\<close>
  (line 554).
\<close>

definition initial_state :: "SigningPolicy \<Rightarrow> voting_epoch \<Rightarrow> observer_state" where
  "initial_state sp ve =
     \<lparr>signing_policy = sp, spb = builder,
      vrm = \<lparr>finalized = ve_id (ve_previous ve), rounds = []\<rparr>\<rparr>"

section \<open>Examples used to instantiate the theorems\<close>

definition example_tx :: "int \<Rightarrow> WTxData" where
  "example_tx ts = \<lparr>hash = [], to_address = None, input = [], block_number = 1,
     timestamp = ts, transaction_index = 0, from_address = ''0xA'', tx_value = 0\<rparr>"

definition example_wpp :: "int \<Rightarrow> 'a \<Rightarrow> 'a WParsedPayload" where
  "example_wpp ts p = \<lparr>parsed_payload = \<lparr>voting_round_id = 7, payload = p\<rparr>,
     wtx_data = example_tx ts\<rparr>"

definition example_request :: "int \<Rightarrow> int \<Rightarrow> bytes \<Rightarrow> AttestationRequest" where
  "example_request b i d = \<lparr>data = d, block = b, log_index = i,
     attestation_type = FdcName ''EVMTransaction'', source_id = FdcName ''ETH'',
     voting_epoch_id = VotingEpoch 7\<rparr>"

definition example_registered :: "address \<Rightarrow> address \<Rightarrow> VoterRegistered" where
  "example_registered voter spa = \<lparr>vr_voter = voter, vr_signing_policy_address = spa,
     vr_submit_address = voter @ ''-submit'',
     vr_submit_signatures_address = voter @ ''-signatures'',
     vr_public_key = ''00'', vr_registration_weight = 1\<rparr>"

definition example_info :: "address \<Rightarrow> VoterRegistrationInfo" where
  "example_info voter = \<lparr>vri_voter = voter, vri_delegation_address = voter @ ''-delegation'',
     vri_delegation_fee_bips = 2000, vri_w_nat_weight = 5, vri_w_nat_capped_weight = 4,
     node_ids = [''n1''], node_weights = [3]\<rparr>"

definition example_initialized :: SigningPolicyInitialized where
  "example_initialized = \<lparr>spi_reward_epoch_id = 3, start_voting_round_id = 7,
     spi_threshold = 15, spi_seed = 0, voters = [''S2'', ''S1''], weights = [10, 20],
     spi_signing_policy_bytes = ''''\<rparr>"

definition example_builder :: SigningPolicyBuilder where
  "example_builder = \<lparr>builder_reward_epoch = Some (RewardEpoch 3),
     random_acquisation_started = Some \<lparr>ras_reward_epoch_id = 3\<rparr>,
     vote_power_block_selected = Some \<lparr>vpbs_reward_epoch_id = 3, vpbs_vote_power_block = 100\<rparr>,
     voter_registered = [example_registered ''V1'' ''S1'', example_registered ''V2'' ''S2''],
     voter_registration_info = [example_info ''V1'', example_info ''V2''],
     voter_removed = [],
     signing_policy_initialized = Some example_initialized\<rparr>"

definition example_factory :: voting_epoch_factory where
  "example_factory = \<lparr>first_epoch_epoc = 0, epoch_duration = 90\<rparr>"

definition example_block :: "int \<Rightarrow> BlockData" where
  "example_block ts = \<lparr>b_number = Some 1, b_timestamp = Some ts, b_transactions = Some []\<rparr>"

definition example_manager :: "int \<Rightarrow> voting_epoch list \<Rightarrow> VotingRoundManager" where
  "example_manager n ks = \<lparr>finalized = n, rounds = map (\<lambda>k. (k, new_round k)) ks\<rparr>"

definition example_entity :: Entity where
  "example_entity = make_entity 10 (example_registered ''V1'' ''S1'') (example_info ''V1'')"

definition example_config :: Configuration where
  "example_config = \<lparr>chain_id = 14, epoch_factory = example_factory\<rparr>"

text \<open>Collaborators that raise on every input.\<close>

definition example_external :: external where
  "example_external = \<lparr>reveal_hash = (\<lambda>_ _ _. Inl (Raised ''parse'')),
     recover_address = (\<lambda>_ _. Inl (Raised ''recover'')),
     parse_submit1_tx = (\<lambda>_. Inl (Raised ''parse'')),
     parse_submit2_tx = (\<lambda>_. Inl (Raised ''parse'')),
     parse_submit_signature_tx = (\<lambda>_. Inl (Raised ''parse''))\<rparr>"


text \<open>
  The policy of reward epoch 2, with the single entity \<open>V1\<close>; the builder
  \<open>example_builder\<close> holds the events of reward epoch 3, which starts in voting round 7.
\<close>

definition example_policy :: SigningPolicy where
  "example_policy = \<lparr>reward_epoch = RewardEpoch 2, vote_power_block = 50,
     start_voting_round = 1, threshold = 5, seed = 0, signing_policy_bytes = '''',
     entities = [example_entity], entity_mapper = mapper_insert example_entity empty_mapper\<rparr>"

definition example_targets :: "string \<rightharpoonup> string" where
  "example_targets = [hex [1, 2, 3, 4] \<mapsto> ''submit1'', hex [5, 6, 7, 8] \<mapsto> ''submit2'',
     hex [9, 10, 11, 12] \<mapsto> ''submitSignatures'']"

definition example_tx_data :: "address \<Rightarrow> bytes \<Rightarrow> TxData" where
  "example_tx_data sender calldata = \<lparr>tx_hash = Some [9], tx_to = None,
     tx_input = Some calldata, tx_blockNumber = Some 1, tx_transactionIndex = Some 0,
     tx_from = Some sender, tx_value_wei = Some 0\<rparr>"

definition example_wtx :: "address \<Rightarrow> bytes \<Rightarrow> WTxData" where
  "example_wtx sender calldata = \<lparr>hash = [9], to_address = None, input = calldata,
     block_number = 1, timestamp = 640, transaction_index = 0, from_address = sender,
     tx_value = 0\<rparr>"

text \<open>
  The logs of the registration window of reward epoch 3, in the order the contracts emit
  them, and the state of the observer once a block has delivered them.
\<close>

definition example_logs :: "log_event list" where
  "example_logs =
     [LogPolicy (EvRandomAcquisitionStarted \<lparr>ras_reward_epoch_id = 3\<rparr>),
      LogPolicy (EvVotePowerBlockSelected \<lparr>vpbs_reward_epoch_id = 3, vpbs_vote_power_block = 100\<rparr>),
      LogPolicy (EvVoterRegistered (example_registered ''V1'' ''S1'')),
      LogPolicy (EvVoterRegistrationInfo (example_info ''V1'')),
      LogPolicy (EvVoterRegistered (example_registered ''V2'' ''S2'')),
      LogPolicy (EvVoterRegistrationInfo (example_info ''V2'')),
      LogPolicy (EvSigningPolicyInitialized example_initialized)]"

definition example_state :: observer_state where
  "example_state =
     \<lparr>signing_policy = example_policy,
      spb = example_builder\<lparr>builder_reward_epoch := None\<rparr>,
      vrm = example_manager 0 []\<rparr>"

section \<open>Properties of extract\_latest\<close>

lemma extract_latest_loop_None:
  "extract_latest_loop r xs latest = None \<longleftrightarrow>
     latest = None \<and> (\<forall>w \<in> set xs. \<not> in_range r w)"
  by (induction xs arbitrary: latest) (auto simp: in_range_def Let_def split: option.splits)

lemma extract_latest_loop_Some:
  assumes "extract_latest_loop r xs latest = Some w"
    and "\<And>l. latest = Some l \<Longrightarrow> in_range r l"
  shows "(w \<in> set xs \<or> latest = Some w) \<and> in_range r w
         \<and> (\<forall>w' \<in> set xs. in_range r w' \<longrightarrow> timestamp (wtx_data w') \<le> timestamp (wtx_data w))
         \<and> (\<forall>l. latest = Some l \<longrightarrow> timestamp (wtx_data l) \<le> timestamp (wtx_data w))"
  using assms
proof (induction xs arbitrary: latest)
  case Nil
  then show ?case by simp
next
  case (Cons x xs)
  show ?case
  proof (cases "in_range r x")
    case False
    with Cons.prems have "extract_latest_loop r xs latest = Some w"
      by (simp add: in_range_def Let_def)
    from Cons.IH [OF this Cons.prems(2)] False show ?thesis by auto
  next
    case inr: True
    show ?thesis
    proof (cases latest)
      case None
      with inr Cons.prems have "extract_latest_loop r xs (Some x) = Some w"
        by (simp add: in_range_def Let_def)
      from Cons.IH [OF this] inr None show ?thesis by auto
    next
      case (Some l)
      show ?thesis
      proof (cases "timestamp (wtx_data x) > timestamp (wtx_data l)")
        case True
        with inr Some Cons.prems have "extract_latest_loop r xs (Some x) = Some w"
          by (simp add: in_range_def Let_def)
        from Cons.IH [OF this] inr Some True show ?thesis by auto
      next
        case False
        with inr Some Cons.prems have "extract_latest_loop r xs latest = Some w"
          by (simp add: in_range_def Let_def)
        from Cons.IH [OF this Cons.prems(2)] Some False show ?thesis by auto
      qed
    qed
  qed
qed

text \<open>
  C6. \<open>extract_latest\<close> returns \<open>None\<close> exactly when no element of the list has its
  timestamp in the half-open range \<open>[start, stop)\<close>; otherwise it returns an element of
  the list whose timestamp lies in the range and is maximal among the timestamps of the
  elements in the range.
\<close>

theorem extract_latest_maximal:
  "(case extract_latest l r of
      None \<Rightarrow> \<forall>w \<in> set (agg l). \<not> in_range r w
    | Some w \<Rightarrow> w \<in> set (agg l) \<and> in_range r w
        \<and> (\<forall>w' \<in> set (agg l). in_range r w' \<longrightarrow>
              timestamp (wtx_data w') \<le> timestamp (wtx_data w)))
   \<and> (extract_latest l r = None \<longleftrightarrow> (\<forall>w \<in> set (agg l). \<not> in_range r w))"
proof -
  have none: "extract_latest l r = None \<longleftrightarrow> (\<forall>w \<in> set (agg l). \<not> in_range r w)"
    by (simp add: extract_latest_def extract_latest_loop_None)
  show ?thesis
  proof (cases "extract_latest l r")
    case None
    with none show ?thesis by simp
  next
    case (Some w)
    then have "extract_latest_loop r (agg l) None = Some w"
      by (simp add: extract_latest_def)
    from extract_latest_loop_Some [OF this] have
      "w \<in> set (agg l) \<and> in_range r w
        \<and> (\<forall>w' \<in> set (agg l). in_range r w' \<longrightarrow>
              timestamp (wtx_data w') \<le> timestamp (wtx_data w))"
      by simp
    with Some none show ?thesis by simp
  qed
qed

theorem extract_latest_maximal_witness:
  "extract_latest \<lparr>agg = [example_wpp 5 (), example_wpp 9 (), example_wpp 7 (), example_wpp 20 ()]\<rparr>
      (Range 0 10) = Some (example_wpp 9 ())
   \<and> in_range (Range 0 10) (example_wpp 9 () :: unit WParsedPayload)
   \<and> timestamp (wtx_data (example_wpp 7 () :: unit WParsedPayload))
       \<le> timestamp (wtx_data (example_wpp 9 () :: unit WParsedPayload))"
  using extract_latest_maximal
    [of "\<lparr>agg = [example_wpp 5 (), example_wpp 9 (), example_wpp 7 (), example_wpp 20 ()]\<rparr>"
        "Range 0 10"]
  by (simp add: extract_latest_def in_range_def example_wpp_def example_tx_def)

section \<open>Properties of AttestationRequestMapper.sorted\<close>

lemma sorted_loop_first_occurrences:
  "sorted_loop xs ret seen =
     ret @ map (\<lambda>i. xs ! i)
       (filter (\<lambda>i. data (xs ! i) \<notin> seen \<and> (\<forall>j < i. data (xs ! j) \<noteq> data (xs ! i)))
          [0..<length xs])"
proof (induction xs arbitrary: ret seen)
  case Nil
  then show ?case by simp
next
  case (Cons x xs)
  have upt: "[0..<length (x # xs)] = 0 # map Suc [0..<length xs]"
    by (simp add: upt_conv_Cons map_Suc_upt del: upt_Suc)
  have step: "(\<forall>j < Suc i. data ((x # xs) ! j) \<noteq> d) \<longleftrightarrow>
              data x \<noteq> d \<and> (\<forall>j < i. data (xs ! j) \<noteq> d)" for i d
    by (auto simp: less_Suc_eq_0_disj)
  show ?case
    unfolding upt
    by (simp add: Cons.IH filter_map comp_def step del: upt_Suc)
       (auto intro!: arg_cong [where f = "map ((!) xs)"] filter_cong)
qed

text \<open>
  C7. Let \<open>ord\<close> be the requests ordered by \<open>(block, log_index)\<close> ascending (a
  permutation of the requests, sorted by that key, requests with equal keys in their
  original order). \<open>sorted()\<close> returns the first occurrences of each \<open>data\<close> value in
  \<open>ord\<close>, reversed.
\<close>

theorem requests_sorted_spec:
  assumes "mset ord = mset (requests_agg m)"
    and "sorted (map (\<lambda>x. (block x, log_index x)) ord)"
    and "\<forall>k. filter (\<lambda>x. (block x, log_index x) = k) ord
             = filter (\<lambda>x. (block x, log_index x) = k) (requests_agg m)"
  shows "requests_sorted m = rev (first_occurrences ord)"
proof -
  let ?key = "\<lambda>x. (block x, log_index x)"
  have stable: "filter (\<lambda>x. ?key k = ?key x) ord = filter (\<lambda>x. ?key k = ?key x) (requests_agg m)"
    for k
  proof -
    have swap: "(\<lambda>x. ?key k = ?key x) = (\<lambda>x. ?key x = ?key k)"
      by (rule ext) (rule eq_commute)
    from assms(3) have "filter (\<lambda>x. ?key x = ?key k) ord
        = filter (\<lambda>x. ?key x = ?key k) (requests_agg m)"
      by (rule spec)
    then show ?thesis
      unfolding swap .
  qed
  have "sort_key ?key (requests_agg m) = ord"
  proof (rule properties_for_sort_key)
    show "mset ord = mset (requests_agg m)"
      by (fact assms(1))
    show "filter (\<lambda>x. ?key k = ?key x) ord = filter (\<lambda>x. ?key k = ?key x) (requests_agg m)"
      if "k \<in> set ord" for k
      by (rule stable)
    show "sorted (map ?key ord)"
      by (fact assms(2))
  qed
  then show ?thesis
    by (simp add: requests_sorted_def first_occurrences_def sorted_loop_first_occurrences)
qed

theorem requests_sorted_spec_witness:
  "requests_sorted \<lparr>requests_agg =
      [example_request 2 0 [1], example_request 1 5 [1], example_request 1 7 [2]]\<rparr>
   = [example_request 1 7 [2], example_request 1 5 [1]]"
proof -
  let ?m = "\<lparr>requests_agg =
      [example_request 2 0 [1], example_request 1 5 [1], example_request 1 7 [2]]\<rparr>"
  let ?ord = "[example_request 1 5 [1], example_request 1 7 [2], example_request 2 0 [1]]"
  have h1: "mset ?ord = mset (requests_agg ?m)"
    by simp
  have h2: "sorted (map (\<lambda>x. (block x, log_index x)) ?ord)"
    by (simp add: example_request_def)
  have h3: "\<forall>k. filter (\<lambda>x. (block x, log_index x) = k) ?ord
             = filter (\<lambda>x. (block x, log_index x) = k) (requests_agg ?m)"
    by (auto simp: example_request_def)
  show ?thesis
    using requests_sorted_spec [OF h1 h2 h3]
    by (simp add: first_occurrences_def example_request_def less_Suc_eq)
qed

section \<open>Properties of SigningPolicyBuilder.build\<close>

lemma fold_upd_map_of:
  "fold (\<lambda>(k, v) m. m(k \<mapsto> v)) kvs m0 = m0 ++ map_of (rev kvs)"
proof (induction kvs arbitrary: m0)
  case Nil
  then show ?case by simp
next
  case (Cons kv kvs)
  obtain k v where kv: "kv = (k, v)" by (cases kv)
  have "fold (\<lambda>(k, v) m. m(k \<mapsto> v)) (kv # kvs) m0
      = fold (\<lambda>(k, v) m. m(k \<mapsto> v)) kvs (m0(k \<mapsto> v))"
    by (simp add: kv)
  also have "\<dots> = m0(k \<mapsto> v) ++ map_of (rev kvs)"
    by (rule Cons.IH)
  also have "\<dots> = m0 ++ map_of (rev (kv # kvs))"
    by (rule ext) (simp add: kv map_add_def split: option.splits)
  finally show ?case .
qed

lemma dict_of_map_of: "dict_of kvs = map_of (rev kvs)"
  by (simp add: dict_of_def fold_upd_map_of)

lemma dict_of_keyed:
  assumes "dict_of (map (\<lambda>v. (key v, v)) xs) a = Some x"
  shows "key x = a \<and> x \<in> set xs"
proof -
  from assms have "(a, x) \<in> set (rev (map (\<lambda>v. (key v, v)) xs))"
    unfolding dict_of_map_of by (rule map_of_SomeD)
  then show ?thesis by auto
qed

lemma build_loop_entities:
  assumes "\<forall>(i, voter) \<in> set ivs. i < length ws
             \<and> (\<exists>a. spa voter = Some a \<and> vres a \<noteq> None \<and> vries a \<noteq> None)"
  shows "\<exists>mapper'. build_loop ws spa vres vries ivs ents mapper =
           Inr (ents @ map (\<lambda>(i, voter).
                  make_entity (ws ! i) (the (vres (the (spa voter))))
                    (the (vries (the (spa voter))))) ivs, mapper')"
  using assms
proof (induction ivs arbitrary: ents mapper)
  case Nil
  then show ?case by simp
next
  case (Cons iv ivs)
  obtain i voter where iv: "iv = (i, voter)" by (cases iv)
  from Cons.prems iv obtain a vre vrie where
    h: "i < length ws" "spa voter = Some a" "vres a = Some vre" "vries a = Some vrie"
    by auto
  from Cons.prems have rest: "\<forall>(i, voter) \<in> set ivs. i < length ws
             \<and> (\<exists>a. spa voter = Some a \<and> vres a \<noteq> None \<and> vries a \<noteq> None)"
    by simp
  from Cons.IH [OF rest, of "ents @ [make_entity (ws ! i) vre vrie]"
      "mapper_insert (make_entity (ws ! i) vre vrie) mapper"]
  show ?case
    by (simp add: iv h subscript_def Let_def)
qed

text \<open>
  C4. When the preconditions of \<open>build\<close> hold, \<open>build\<close> returns a signing policy whose
  \<open>entities\<close> list has one entry per element of \<open>signing_policy_initialized.voters\<close>, in
  the same order: entry \<open>i\<close> is the entity made of the \<open>VoterRegistered\<close> and
  \<open>VoterRegistrationInfo\<close> events found for \<open>voters[i]\<close> through the index from signing
  policy address to voter, and its \<open>normalized_weight\<close> is \<open>weights[i]\<close>.
\<close>

theorem build_entities:
  assumes "build_pre b"
  shows "\<exists>sp spi. build b = Inr sp \<and> signing_policy_initialized b = Some spi
     \<and> length (entities sp) = length (voters spi)
     \<and> (\<forall>i < length (voters spi). \<exists>a vre vrie.
           spa_of b (voters spi ! i) = Some a
           \<and> vres_of b a = Some vre \<and> vries_of b a = Some vrie
           \<and> entities sp ! i = make_entity (weights spi ! i) vre vrie
           \<and> normalized_weight (entities sp ! i) = weights spi ! i
           \<and> identity_address (entities sp ! i) = a)"
proof -
  from assms obtain re ras vpbs spi where
    pre: "builder_reward_epoch b = Some re"
      "random_acquisation_started b = Some ras" "ras_reward_epoch_id ras = re_id re"
      "vote_power_block_selected b = Some vpbs" "vpbs_reward_epoch_id vpbs = re_id re"
      "signing_policy_initialized b = Some spi" "spi_reward_epoch_id spi = re_id re"
      "length (voter_registered b) = length (voter_registration_info b)"
    and look: "lookups_defined b spi"
    unfolding build_pre_def by blast
  let ?ivs = "enumerate 0 (voters spi)"
  let ?mk = "\<lambda>(i, voter). make_entity (weights spi ! i)
       (the (vres_of b (the (spa_of b voter)))) (the (vries_of b (the (spa_of b voter))))"
  have ok: "\<forall>(i, voter) \<in> set ?ivs. i < length (weights spi)
      \<and> (\<exists>a. spa_of b voter = Some a \<and> vres_of b a \<noteq> None \<and> vries_of b a \<noteq> None)"
    using look by (auto simp: lookups_defined_def in_set_enumerate_eq)
  from build_loop_entities [OF ok, of "[]" empty_mapper] obtain mapper' where
    loop: "build_loop (weights spi) (spa_of b) (vres_of b) (vries_of b) ?ivs [] empty_mapper
             = Inr (map ?mk ?ivs, mapper')"
    by auto
  define sp where "sp = \<lparr>reward_epoch = re,
      vote_power_block = vpbs_vote_power_block vpbs,
      start_voting_round = start_voting_round_id spi,
      threshold = spi_threshold spi, seed = spi_seed spi,
      signing_policy_bytes = spi_signing_policy_bytes spi,
      entities = map ?mk ?ivs, entity_mapper = mapper'\<rparr>"
  have built: "build b = Inr sp"
    using pre loop
    by (simp add: build_def sp_def spa_of_def vres_of_def vries_of_def)
  have ents: "entities sp = map ?mk ?ivs"
    by (simp add: sp_def)
  have len: "length (entities sp) = length (voters spi)"
    by (simp add: ents)
  have each: "\<exists>a vre vrie.
           spa_of b (voters spi ! i) = Some a
           \<and> vres_of b a = Some vre \<and> vries_of b a = Some vrie
           \<and> entities sp ! i = make_entity (weights spi ! i) vre vrie
           \<and> normalized_weight (entities sp ! i) = weights spi ! i
           \<and> identity_address (entities sp ! i) = a"
    if i: "i < length (voters spi)" for i
  proof -
    from look i obtain a vre vrie where
      h: "spa_of b (voters spi ! i) = Some a" "vres_of b a = Some vre" "vries_of b a = Some vrie"
      by (auto simp: lookups_defined_def)
    from h(2) have voter: "vr_voter vre = a"
      unfolding vres_of_def by (auto dest: dict_of_keyed)
    have nth: "entities sp ! i = make_entity (weights spi ! i) vre vrie"
      using i h by (simp add: ents nth_enumerate_eq)
    show ?thesis
      using h nth voter by (simp add: make_entity_def)
  qed
  from built pre(6) len each show ?thesis
    by blast
qed

theorem build_entities_witness:
  "build_pre example_builder
   \<and> (\<exists>sp. build example_builder = Inr sp \<and> length (entities sp) = 2
        \<and> normalized_weight (entities sp ! 0) = 10 \<and> identity_address (entities sp ! 0) = ''V2''
        \<and> normalized_weight (entities sp ! 1) = 20 \<and> identity_address (entities sp ! 1) = ''V1'')"
proof -
  have pre: "build_pre example_builder"
    by (simp add: build_pre_def lookups_defined_def example_builder_def example_initialized_def
        spa_of_def vres_of_def vries_of_def dict_of_def example_registered_def example_info_def
        less_Suc_eq)
  from build_entities [OF pre] obtain sp spi where
    h: "build example_builder = Inr sp" "signing_policy_initialized example_builder = Some spi"
      "length (entities sp) = length (voters spi)"
      "\<forall>i < length (voters spi). \<exists>a vre vrie.
           spa_of example_builder (voters spi ! i) = Some a
           \<and> vres_of example_builder a = Some vre \<and> vries_of example_builder a = Some vrie
           \<and> entities sp ! i = make_entity (weights spi ! i) vre vrie
           \<and> normalized_weight (entities sp ! i) = weights spi ! i
           \<and> identity_address (entities sp ! i) = a"
    by blast
  from h(2) have spi: "spi = example_initialized"
    by (simp add: example_builder_def)
  have spa: "spa_of example_builder ''S2'' = Some ''V2''" "spa_of example_builder ''S1'' = Some ''V1''"
    by (simp_all add: spa_of_def dict_of_def example_builder_def example_registered_def)
  from h(4) have "\<exists>a. spa_of example_builder (voters spi ! 0) = Some a
      \<and> normalized_weight (entities sp ! 0) = weights spi ! 0 \<and> identity_address (entities sp ! 0) = a"
    by (auto simp: spi example_initialized_def)
  then have e0: "normalized_weight (entities sp ! 0) = 10 \<and> identity_address (entities sp ! 0) = ''V2''"
    using spa by (auto simp: spi example_initialized_def)
  from h(4) have "\<exists>a. spa_of example_builder (voters spi ! 1) = Some a
      \<and> normalized_weight (entities sp ! 1) = weights spi ! 1 \<and> identity_address (entities sp ! 1) = a"
    by (auto simp: spi example_initialized_def)
  then have e1: "normalized_weight (entities sp ! 1) = 20 \<and> identity_address (entities sp ! 1) = ''V1''"
    using spa by (auto simp: spi example_initialized_def)
  from h(3) have "length (entities sp) = 2"
    by (simp add: spi example_initialized_def)
  with pre h(1) e0 e1 show ?thesis
    by blast
qed

section \<open>Properties of the VotingRoundManager\<close>

lemma set_delete_subset: "set (AList.delete k al) \<subseteq> set al"
  by (auto simp: AList.delete_eq)

lemma keys_delete: "set (map fst (AList.delete k al)) = set (map fst al) - {k}"
  by (simp add: delete_keys)

lemma set_update_subset: "set (AList.update k v al) \<subseteq> insert (k, v) (set al)"
  by (induction al) auto

lemma keyed_delete: "keyed m \<Longrightarrow> keyed (m\<lparr>rounds := AList.delete k (rounds m)\<rparr>)"
  using set_delete_subset [of k "rounds m"] by (auto simp: keyed_def)

lemma keyed_delete_finalized:
  "keyed m \<Longrightarrow> keyed (m\<lparr>finalized := n, rounds := AList.delete k (rounds m)\<rparr>)"
  using set_delete_subset [of k "rounds m"] by (auto simp: keyed_def)

lemma get_finalized: "finalized (snd (get v m)) = finalized m"
  by (simp add: get_def split: option.splits)

lemma get_keyed: "keyed m \<Longrightarrow> keyed (snd (get v m))"
  using set_update_subset [of v "new_round v" "rounds m"]
  by (auto simp: get_def keyed_def new_round_def split: option.splits)

lemma get_keys: "set (round_keys (snd (get v m))) = insert v (set (round_keys m))"
proof (cases "map_of (rounds m) v")
  case None
  then show ?thesis
    using dom_update [of v "new_round v" "rounds m"] by (simp add: get_def round_keys_def)
next
  case (Some r)
  then have "(v, r) \<in> set (rounds m)"
    by (rule map_of_SomeD)
  then have "v \<in> fst ` set (rounds m)"
    by force
  with Some show ?thesis
    by (auto simp: get_def round_keys_def)
qed

lemma end_s_next_mono:
  assumes "0 \<le> epoch_duration f" and "ve_id a \<le> ve_id b"
  shows "end_s f (ve_next a) \<le> end_s f (ve_next b)"
proof -
  from assms have "(ve_id a + 1 + 1) * epoch_duration f \<le> (ve_id b + 1 + 1) * epoch_duration f"
    by (intro mult_right_mono) auto
  then show ?thesis
    by (simp add: end_s_def start_s_def ve_next_def)
qed

text \<open>The loop of \<open>finalize\<close> never pops a key that is missing.\<close>

lemma finalize_loop_returns:
  assumes "\<forall>k \<in> set ks. finalized m < ve_id k \<longrightarrow> k \<in> fst ` set (rounds m)"
  shows "\<exists>out' m'. finalize_loop f ts ks m out = Inr (out', m')"
  using assms
proof (induction ks arbitrary: m out)
  case Nil
  then show ?case by simp
next
  case (Cons k ks)
  show ?case
  proof (cases "ve_id k \<le> finalized m")
    case True
    let ?m = "m\<lparr>rounds := AList.delete k (rounds m)\<rparr>"
    have "\<forall>k' \<in> set ks. finalized ?m < ve_id k' \<longrightarrow> k' \<in> fst ` set (rounds ?m)"
      using Cons.prems True keys_delete [of k "rounds m"] by auto
    from Cons.IH [OF this] True show ?thesis by simp
  next
    case above: False
    show ?thesis
    proof (cases "end_s f (ve_next k) < ts")
      case True
      from Cons.prems above have "k \<in> fst ` set (rounds m)" by simp
      then obtain r where r: "map_of (rounds m) k = Some r"
        by (metis domD dom_map_of_conv_image_fst)
      let ?m = "m\<lparr>finalized := max (finalized m) (ve_id k), rounds := AList.delete k (rounds m)\<rparr>"
      have "\<forall>k' \<in> set ks. finalized ?m < ve_id k' \<longrightarrow> k' \<in> fst ` set (rounds ?m)"
        using Cons.prems above keys_delete [of k "rounds m"] by auto
      from Cons.IH [OF this] above True r show ?thesis by simp
    next
      case False
      from Cons.prems have "\<forall>k' \<in> set ks. finalized m < ve_id k' \<longrightarrow> k' \<in> fst ` set (rounds m)"
        by simp
      from Cons.IH [OF this] above False show ?thesis by simp
    qed
  qed
qed

lemma finalize_returns:
  assumes "b_timestamp blk = Some ts"
  shows "\<exists>out m'. finalize f blk m = Inr (out, m')"
  using assms finalize_loop_returns [of "round_keys m" m f ts "[]"]
  by (simp add: finalize_def round_keys_def)

text \<open>
  What one run of the loop does to the counter and which rounds it appends: their ids lie
  above the counter before the call and not above the counter after it.
\<close>

lemma finalize_loop_window:
  assumes "finalize_loop f ts ks m out = Inr (out', m')" and "keyed m"
  shows "finalized m \<le> finalized m' \<and> keyed m'
         \<and> (\<exists>new. out' = out @ new
              \<and> (\<forall>r \<in> set new. finalized m < ve_id (voting_epoch r)
                     \<and> ve_id (voting_epoch r) \<le> finalized m'))"
  using assms
proof (induction ks arbitrary: m out)
  case Nil
  then show ?case by simp
next
  case (Cons k ks)
  show ?case
  proof (cases "ve_id k \<le> finalized m")
    case True
    let ?m = "m\<lparr>rounds := AList.delete k (rounds m)\<rparr>"
    from Cons.prems True have run: "finalize_loop f ts ks ?m out = Inr (out', m')" by simp
    from Cons.IH [OF run keyed_delete [OF Cons.prems(2)]] show ?thesis by simp
  next
    case above: False
    show ?thesis
    proof (cases "end_s f (ve_next k) < ts")
      case True
      with Cons.prems above obtain r where r: "map_of (rounds m) k = Some r"
        by (cases "map_of (rounds m) k") auto
      let ?m = "m\<lparr>finalized := max (finalized m) (ve_id k), rounds := AList.delete k (rounds m)\<rparr>"
      from Cons.prems above True r have run: "finalize_loop f ts ks ?m (out @ [r]) = Inr (out', m')"
        by simp
      from r have "(k, r) \<in> set (rounds m)" by (rule map_of_SomeD)
      with Cons.prems(2) have id: "voting_epoch r = k" by (auto simp: keyed_def)
      from Cons.IH [OF run keyed_delete_finalized [OF Cons.prems(2)]] obtain new where
        ih: "finalized ?m \<le> finalized m'" "keyed m'" "out' = (out @ [r]) @ new"
          "\<forall>r \<in> set new. finalized ?m < ve_id (voting_epoch r)
              \<and> ve_id (voting_epoch r) \<le> finalized m'"
        by blast
      have "out' = out @ (r # new)" using ih(3) by simp
      moreover have "\<forall>x \<in> set (r # new). finalized m < ve_id (voting_epoch x)
              \<and> ve_id (voting_epoch x) \<le> finalized m'"
        using ih(1,4) above id by auto
      moreover have "finalized m \<le> finalized m'" using ih(1) by simp
      ultimately show ?thesis using ih(2) by blast
    next
      case False
      with Cons.prems above have run: "finalize_loop f ts ks m out = Inr (out', m')" by simp
      from Cons.IH [OF run Cons.prems(2)] show ?thesis .
    qed
  qed
qed

lemma finalize_window:
  assumes "finalize f blk m = Inr (out, m')" and "keyed m"
  shows "finalized m \<le> finalized m' \<and> keyed m'
         \<and> (\<forall>r \<in> set out. finalized m < ve_id (voting_epoch r)
                \<and> ve_id (voting_epoch r) \<le> finalized m')"
proof -
  from assms(1) obtain ts where "finalize_loop f ts (round_keys m) m [] = Inr (out, m')"
    by (auto simp: finalize_def split: option.splits)
  from finalize_loop_window [OF this assms(2)] show ?thesis by auto
qed

text \<open>After the loop every remaining key is above the counter.\<close>

lemma finalize_loop_live:
  assumes "finalize_loop f ts ks m out = Inr (out', m')"
    and "0 \<le> epoch_duration f"
    and "\<forall>k \<in> set (round_keys m). k \<in> set ks
           \<or> (finalized m < ve_id k \<and> ts \<le> end_s f (ve_next k))"
  shows "live_above_finalized m'"
  using assms
proof (induction ks arbitrary: m out)
  case Nil
  then show ?case by (auto simp: live_above_finalized_def)
next
  case (Cons k ks)
  show ?case
  proof (cases "ve_id k \<le> finalized m")
    case True
    let ?m = "m\<lparr>rounds := AList.delete k (rounds m)\<rparr>"
    from Cons.prems True have run: "finalize_loop f ts ks ?m out = Inr (out', m')" by simp
    have "\<forall>k' \<in> set (round_keys ?m). k' \<in> set ks
           \<or> (finalized ?m < ve_id k' \<and> ts \<le> end_s f (ve_next k'))"
      using Cons.prems(3) keys_delete [of k "rounds m"] by (auto simp: round_keys_def)
    from Cons.IH [OF run Cons.prems(2) this] show ?thesis .
  next
    case above: False
    show ?thesis
    proof (cases "end_s f (ve_next k) < ts")
      case True
      with Cons.prems above obtain r where r: "map_of (rounds m) k = Some r"
        by (cases "map_of (rounds m) k") auto
      let ?m = "m\<lparr>finalized := max (finalized m) (ve_id k), rounds := AList.delete k (rounds m)\<rparr>"
      from Cons.prems above True r have run: "finalize_loop f ts ks ?m (out @ [r]) = Inr (out', m')"
        by simp
      have "k' \<in> set ks \<or> (finalized ?m < ve_id k' \<and> ts \<le> end_s f (ve_next k'))"
        if k': "k' \<in> set (round_keys ?m)" for k'
      proof -
        from k' have in_m: "k' \<in> set (round_keys m)" and ne: "k' \<noteq> k"
          using keys_delete [of k "rounds m"] by (auto simp: round_keys_def)
        from Cons.prems(3) in_m ne consider "k' \<in> set ks"
          | "finalized m < ve_id k'" "ts \<le> end_s f (ve_next k')"
          by auto
        then show ?thesis
        proof cases
          case 1
          then show ?thesis by simp
        next
          case 2
          have "ve_id k < ve_id k'"
          proof (rule ccontr)
            assume "\<not> ve_id k < ve_id k'"
            then have "end_s f (ve_next k') \<le> end_s f (ve_next k)"
              using end_s_next_mono [OF Cons.prems(2)] by simp
            with True 2(2) show False by simp
          qed
          with 2 show ?thesis by simp
        qed
      qed
      then have "\<forall>k' \<in> set (round_keys ?m). k' \<in> set ks
           \<or> (finalized ?m < ve_id k' \<and> ts \<le> end_s f (ve_next k'))"
        by blast
      from Cons.IH [OF run Cons.prems(2) this] show ?thesis .
    next
      case False
      with Cons.prems above have run: "finalize_loop f ts ks m out = Inr (out', m')" by simp
      have "\<forall>k' \<in> set (round_keys m). k' \<in> set ks
           \<or> (finalized m < ve_id k' \<and> ts \<le> end_s f (ve_next k'))"
        using Cons.prems(3) above False by auto
      from Cons.IH [OF run Cons.prems(2) this] show ?thesis .
    qed
  qed
qed

text \<open>
  C2, as stated, fails: \<open>get\<close> inserts any epoch. On a fresh manager whose counter is 5,
  \<open>get\<close> of epoch 3 leaves the key 3 in \<open>rounds\<close>, which is not above the counter.
\<close>

theorem get_below_finalized_counterexample:
  "VotingEpoch 3 \<in> set (round_keys (snd (get (VotingEpoch 3) (example_manager 5 []))))
   \<and> finalized (snd (get (VotingEpoch 3) (example_manager 5 []))) = 5
   \<and> \<not> live_above_finalized (snd (get (VotingEpoch 3) (example_manager 5 [])))"
  by (simp add: get_def example_manager_def round_keys_def live_above_finalized_def)

text \<open>
  C2, amended. With epochs of non-negative length, a \<open>finalize\<close> call on a block that
  carries a timestamp returns, from any state of the manager, and in the state it leaves
  every key of \<open>rounds\<close> has an id strictly greater than \<open>finalized\<close>. \<open>get(v)\<close> keeps
  that property when \<open>v.id > finalized\<close>.
\<close>

theorem finalize_restores_live:
  "(0 \<le> epoch_duration f \<longrightarrow> b_timestamp blk = Some ts \<longrightarrow>
      (\<exists>out m'. finalize f blk m = Inr (out, m') \<and> live_above_finalized m'))
   \<and> (live_above_finalized m \<longrightarrow> finalized m < ve_id v \<longrightarrow>
        live_above_finalized (snd (get v m)))"
proof (intro conjI impI)
  assume dur: "0 \<le> epoch_duration f" and ts: "b_timestamp blk = Some ts"
  from finalize_returns [OF ts] obtain out m' where ret: "finalize f blk m = Inr (out, m')"
    by blast
  with ts have "finalize_loop f ts (round_keys m) m [] = Inr (out, m')"
    by (simp add: finalize_def)
  from finalize_loop_live [OF this dur] have "live_above_finalized m'"
    by simp
  with ret show "\<exists>out m'. finalize f blk m = Inr (out, m') \<and> live_above_finalized m'"
    by blast
next
  assume "live_above_finalized m" and "finalized m < ve_id v"
  then show "live_above_finalized (snd (get v m))"
    using get_keys [of v m] get_finalized [of v m]
    by (auto simp: live_above_finalized_def)
qed

theorem finalize_restores_live_witness:
  "0 \<le> epoch_duration example_factory
   \<and> finalize example_factory (example_block 700)
       (example_manager 4 [VotingEpoch 5, VotingEpoch 6, VotingEpoch 3])
     = Inr ([new_round (VotingEpoch 5)], example_manager 5 [VotingEpoch 6])
   \<and> live_above_finalized (example_manager 5 [VotingEpoch 6])
   \<and> live_above_finalized (snd (get (VotingEpoch 7) (example_manager 5 [VotingEpoch 6])))"
proof -
  have dur: "0 \<le> epoch_duration example_factory"
    by (simp add: example_factory_def)
  have ts: "b_timestamp (example_block 700) = Some 700"
    by (simp add: example_block_def)
  have fin: "finalize example_factory (example_block 700)
       (example_manager 4 [VotingEpoch 5, VotingEpoch 6, VotingEpoch 3])
     = Inr ([new_round (VotingEpoch 5)], example_manager 5 [VotingEpoch 6])"
    by (simp add: finalize_def example_block_def example_manager_def example_factory_def
        round_keys_def end_s_def start_s_def ve_next_def)
  from finalize_restores_live
    [of example_factory "example_block 700" 700
        "example_manager 4 [VotingEpoch 5, VotingEpoch 6, VotingEpoch 3]"]
    dur ts fin
  have live: "live_above_finalized (example_manager 5 [VotingEpoch 6])"
    by auto
  have "finalized (example_manager 5 [VotingEpoch 6]) < ve_id (VotingEpoch 7)"
    by (simp add: example_manager_def)
  with live finalize_restores_live
    [of example_factory "example_block 700" 700 "example_manager 5 [VotingEpoch 6]" "VotingEpoch 7"]
  have "live_above_finalized (snd (get (VotingEpoch 7) (example_manager 5 [VotingEpoch 6])))"
    by blast
  with dur fin live show ?thesis
    by blast
qed

lemma run_window:
  assumes "run f cs m = Inr (outs, m')" and "keyed m"
  shows "finalized m \<le> finalized m'
         \<and> (\<forall>out \<in> set outs. \<forall>x \<in> round_ids out. finalized m < x)
         \<and> (\<forall>i j. i < j \<and> j < length outs \<longrightarrow> round_ids (outs ! i) \<inter> round_ids (outs ! j) = {})"
  using assms
proof (induction cs arbitrary: m outs)
  case Nil
  then show ?case by simp
next
  case (Cons c cs)
  show ?case
  proof (cases c)
    case (Get v)
    with Cons.prems have run: "run f cs (snd (get v m)) = Inr (outs, m')" by simp
    from Cons.IH [OF run get_keyed [OF Cons.prems(2)]] show ?thesis
      by (simp add: get_finalized)
  next
    case (Finalize blk)
    with Cons.prems obtain out m1 outs' where
      fin: "finalize f blk m = Inr (out, m1)" and
      run: "run f cs m1 = Inr (outs', m')" and
      outs: "outs = out # outs'"
      by (auto split: sum.splits)
    from finalize_window [OF fin Cons.prems(2)] have
      w: "finalized m \<le> finalized m1" "keyed m1"
         "\<forall>x \<in> round_ids out. finalized m < x \<and> x \<le> finalized m1"
      by (auto simp: round_ids_def)
    from Cons.IH [OF run w(2)] have
      ih: "finalized m1 \<le> finalized m'"
          "\<forall>o' \<in> set outs'. \<forall>x \<in> round_ids o'. finalized m1 < x"
          "\<forall>i j. i < j \<and> j < length outs' \<longrightarrow> round_ids (outs' ! i) \<inter> round_ids (outs' ! j) = {}"
      by auto
    have mono: "finalized m \<le> finalized m'"
      using w(1) ih(1) by simp
    have above: "\<forall>o' \<in> set outs. \<forall>x \<in> round_ids o'. finalized m < x"
      using w(1,3) ih(2) outs by fastforce
    have disj: "round_ids (outs ! i) \<inter> round_ids (outs ! j) = {}"
      if ij: "i < j" "j < length outs" for i j
    proof -
      from ij obtain j' where j': "j = Suc j'" "j' < length outs'"
        using outs by (cases j) auto
      show ?thesis
      proof (cases i)
        case 0
        have "outs' ! j' \<in> set outs'" using j'(2) by simp
        with ih(2) have "\<forall>x \<in> round_ids (outs' ! j'). finalized m1 < x" by blast
        with w(3) show ?thesis
          by (fastforce simp: outs 0 j'(1))
      next
        case (Suc i')
        with ij j' have "i' < j' \<and> j' < length outs'" by simp
        with ih(3) show ?thesis
          by (simp add: outs Suc j'(1))
      qed
    qed
    from mono above disj show ?thesis by blast
  qed
qed

lemma run_returns:
  assumes "\<forall>blk. Finalize blk \<in> set cs \<longrightarrow> b_timestamp blk \<noteq> None"
  shows "\<exists>outs m'. run f cs m = Inr (outs, m')"
  using assms
proof (induction cs arbitrary: m)
  case Nil
  then show ?case by simp
next
  case (Cons c cs)
  from Cons.prems have rest: "\<forall>blk. Finalize blk \<in> set cs \<longrightarrow> b_timestamp blk \<noteq> None"
    by simp
  show ?case
  proof (cases c)
    case (Get v)
    with Cons.IH [OF rest, of "snd (get v m)"] show ?thesis by simp
  next
    case (Finalize blk)
    with Cons.prems obtain ts where "b_timestamp blk = Some ts" by auto
    from finalize_returns [OF this] obtain out m1 where fin: "finalize f blk m = Inr (out, m1)"
      by blast
    from Cons.IH [OF rest, of m1] obtain outs m' where "run f cs m1 = Inr (outs, m')"
      by blast
    with fin Finalize show ?thesis by simp
  qed
qed

text \<open>
  C3. Take any sequence of \<open>get\<close> and \<open>finalize\<close> calls on a manager whose keys store
  their own rounds. When every block carries a timestamp the sequence runs to its end;
  when it runs to its end, \<open>finalized\<close> has not decreased, and no voting-epoch id is in
  the lists returned by two different \<open>finalize\<close> calls.
\<close>

theorem finalize_never_repeats:
  assumes "keyed m"
  shows "((\<forall>blk. Finalize blk \<in> set cs \<longrightarrow> b_timestamp blk \<noteq> None) \<longrightarrow>
            (\<exists>outs m'. run f cs m = Inr (outs, m')))
         \<and> (\<forall>outs m'. run f cs m = Inr (outs, m') \<longrightarrow>
              finalized m \<le> finalized m'
              \<and> (\<forall>i j. i < j \<and> j < length outs \<longrightarrow>
                    round_ids (outs ! i) \<inter> round_ids (outs ! j) = {}))"
  using run_returns [of cs f m] run_window [OF _ assms, of f cs]
  by blast

theorem finalize_never_repeats_witness:
  "keyed (example_manager 4 [])
   \<and> run example_factory
       [Get (VotingEpoch 5), Get (VotingEpoch 6), Finalize (example_block 700),
        Get (VotingEpoch 5), Finalize (example_block 2000)]
       (example_manager 4 [])
     = Inr ([[new_round (VotingEpoch 5)], [new_round (VotingEpoch 6)]], example_manager 6 [])
   \<and> finalized (example_manager 4 []) \<le> finalized (example_manager 6 [])
   \<and> round_ids [new_round (VotingEpoch 5)] \<inter> round_ids [new_round (VotingEpoch 6)] = {}"
proof -
  let ?cs = "[Get (VotingEpoch 5), Get (VotingEpoch 6), Finalize (example_block 700),
        Get (VotingEpoch 5), Finalize (example_block 2000)]"
  let ?outs = "[[new_round (VotingEpoch 5)], [new_round (VotingEpoch 6)]]"
  have k: "keyed (example_manager 4 [])"
    by (simp add: keyed_def example_manager_def)
  have r: "run example_factory ?cs (example_manager 4 []) = Inr (?outs, example_manager 6 [])"
    by (simp add: get_def finalize_def example_block_def example_manager_def example_factory_def
        round_keys_def end_s_def start_s_def ve_next_def)
  have ts: "\<forall>blk. Finalize blk \<in> set ?cs \<longrightarrow> b_timestamp blk \<noteq> None"
    by (auto simp: example_block_def)
  with finalize_never_repeats [OF k, of ?cs example_factory]
  have "\<exists>outs m'. run example_factory ?cs (example_manager 4 []) = Inr (outs, m')"
    by blast
  from finalize_never_repeats [OF k, of ?cs example_factory] r
  have q: "finalized (example_manager 4 []) \<le> finalized (example_manager 6 [])
      \<and> (\<forall>i j. i < j \<and> j < length ?outs \<longrightarrow>
                    round_ids (?outs ! i) \<inter> round_ids (?outs ! j) = {})"
    by blast
  from q have mono: "finalized (example_manager 4 []) \<le> finalized (example_manager 6 [])"
    by (rule conjunct1)
  from q have "\<forall>i j. i < j \<and> j < length ?outs \<longrightarrow>
                    round_ids (?outs ! i) \<inter> round_ids (?outs ! j) = {}"
    by (rule conjunct2)
  then have "(0::nat) < 1 \<and> 1 < length ?outs \<longrightarrow>
                    round_ids (?outs ! 0) \<inter> round_ids (?outs ! 1) = {}"
    by blast
  then have "round_ids [new_round (VotingEpoch 5)] \<inter> round_ids [new_round (VotingEpoch 6)] = {}"
    by simp
  with k r mono show ?thesis
    by blast
qed

section \<open>Properties of the bitvote inflation\<close>

lemma shifted_bit_iff: "shifted_bit b s = bit b s"
  by (simp add: shifted_bit_def and_one_eq bit_iff_odd_drop_bit odd_iff_mod_2_eq_one)

lemma inflate_shifts_char:
  assumes "length cb = n"
  shows "inflate_shifts n j b shifts cb =
     (if \<exists>s \<in> set shifts. n \<le> j * 8 + s \<and> bit b s
      then Inl (ValueError ''Invalid payload length.'')
      else Inr (map (\<lambda>i. if \<exists>s \<in> set shifts. j * 8 + s + i + 1 = n
                          then bit b (n - 1 - i - j * 8) else cb ! i) [0..<n]))"
  using assms
proof (induction shifts arbitrary: cb)
  case Nil
  from Nil have "map ((!) cb) [0..<n] = cb" by (auto simp: map_nth)
  then show ?case by simp
next
  case (Cons s shifts)
  show ?case
  proof (cases "n \<le> j * 8 + s")
    case True
    then have neg: "int n - 1 - int j * 8 - int s < 0" by simp
    have no: "\<And>i. j * 8 + s + i + 1 \<noteq> n" using True by simp
    show ?thesis
      using neg Cons.IH [OF Cons.prems] True
      by (simp add: shifted_bit_iff no Let_def)
  next
    case False
    then have pos: "\<not> int n - 1 - int j * 8 - int s < 0" by simp
    have idx: "nat (int n - 1 - int j * 8 - int s) = n - 1 - (j * 8 + s)"
      using False by simp
    let ?cb = "cb[n - 1 - (j * 8 + s) := bit b s]"
    have len: "length ?cb = n" using Cons.prems by simp
    have eq: "(if \<exists>s' \<in> set shifts. j * 8 + s' + i + 1 = n
               then bit b (n - 1 - i - j * 8) else ?cb ! i)
            = (if \<exists>s' \<in> set (s # shifts). j * 8 + s' + i + 1 = n
               then bit b (n - 1 - i - j * 8) else cb ! i)" if "i < n" for i
    proof (cases "j * 8 + s + i + 1 = n")
      case True
      then have "n - 1 - (j * 8 + s) = i" "n - 1 - i - j * 8 = s" by simp_all
      with that Cons.prems True show ?thesis by simp
    next
      case False
      then have "n - 1 - (j * 8 + s) \<noteq> i" using \<open>\<not> n \<le> j * 8 + s\<close> by arith
      with False show ?thesis by simp
    qed
    have "inflate_shifts n j b (s # shifts) cb = inflate_shifts n j b shifts ?cb"
      using pos idx by (simp add: shifted_bit_iff Let_def)
    also note Cons.IH [OF len]
    finally show ?thesis
      using False eq by (auto intro!: map_cong)
  qed
qed

lemma map_upt_cong: "(\<And>i. i < n \<Longrightarrow> f i = g i) \<Longrightarrow> map f [0..<n] = map g [0..<n]"
  by simp

lemma inflate_byte_char:
  assumes "length cb = n"
  shows "inflate_shifts n j b [0..<8] cb =
     (if \<exists>s < 8. n \<le> j * 8 + s \<and> bit b s
      then Inl (ValueError ''Invalid payload length.'')
      else Inr (map (\<lambda>i. if (n - 1 - i) div 8 = j
                          then bit b ((n - 1 - i) mod 8) else cb ! i) [0..<n]))"
proof -
  have pos: "(\<exists>s \<in> set [0..<8]. j * 8 + s + i + 1 = n) \<longleftrightarrow> (n - 1 - i) div 8 = j"
    if "i < n" for i
  proof
    assume "\<exists>s \<in> set [0..<8]. j * 8 + s + i + 1 = n"
    then obtain s where "s < 8" "j * 8 + s + i + 1 = n" by auto
    then have "n - 1 - i = j * 8 + s" by simp
    with \<open>s < 8\<close> show "(n - 1 - i) div 8 = j" by simp
  next
    assume d: "(n - 1 - i) div 8 = j"
    have "(n - 1 - i) mod 8 < 8" by simp
    moreover have "j * 8 + (n - 1 - i) mod 8 + i + 1 = n"
      using that d div_mult_mod_eq [of "n - 1 - i" 8] by simp
    ultimately show "\<exists>s \<in> set [0..<8]. j * 8 + s + i + 1 = n" by auto
  qed
  have off: "n - 1 - i - j * 8 = (n - 1 - i) mod 8" if "(n - 1 - i) div 8 = j" for i
    using that div_mult_mod_eq [of "n - 1 - i" 8] by simp
  have pt: "(if \<exists>s \<in> set [0..<8]. j * 8 + s + i + 1 = n
                 then bit b (n - 1 - i - j * 8) else cb ! i)
      = (if (n - 1 - i) div 8 = j then bit b ((n - 1 - i) mod 8) else cb ! i)"
    if "i < n" for i
  proof (cases "(n - 1 - i) div 8 = j")
    case True
    with pos [OF that] have ex: "\<exists>s \<in> set [0..<8]. j * 8 + s + i + 1 = n" by blast
    show ?thesis unfolding if_P [OF ex] if_P [OF True] off [OF True] ..
  next
    case False
    with pos [OF that] have nex: "\<not> (\<exists>s \<in> set [0..<8]. j * 8 + s + i + 1 = n)" by blast
    show ?thesis unfolding if_not_P [OF nex] if_not_P [OF False] ..
  qed
  have "map (\<lambda>i. if \<exists>s \<in> set [0..<8]. j * 8 + s + i + 1 = n
                 then bit b (n - 1 - i - j * 8) else cb ! i) [0..<n]
      = map (\<lambda>i. if (n - 1 - i) div 8 = j
                 then bit b ((n - 1 - i) mod 8) else cb ! i) [0..<n]"
    by (rule map_upt_cong) (rule pt)
  moreover have "(\<exists>s \<in> set [0..<8]. n \<le> j * 8 + s \<and> bit b s)
      \<longleftrightarrow> (\<exists>s < 8. n \<le> j * 8 + s \<and> bit b s)"
    by auto
  ultimately show ?thesis
    using inflate_shifts_char [OF assms, of j b "[0..<8]"] by (simp only:)
qed

lemma inflate_bytes_char:
  assumes "length cb = n"
  shows "inflate_bytes n (enumerate k bs) cb =
     (if \<exists>j < length bs. \<exists>s < 8. n \<le> (k + j) * 8 + s \<and> bit (bs ! j) s
      then Inl (ValueError ''Invalid payload length.'')
      else Inr (map (\<lambda>i. if k \<le> (n - 1 - i) div 8 \<and> (n - 1 - i) div 8 < k + length bs
                          then bit (bs ! ((n - 1 - i) div 8 - k)) ((n - 1 - i) mod 8)
                          else cb ! i) [0..<n]))"
  using assms
proof (induction bs arbitrary: k cb)
  case Nil
  from Nil have "map ((!) cb) [0..<n] = cb" by (auto simp: map_nth)
  moreover have "map (\<lambda>i. if k \<le> (n - 1 - i) div 8 \<and> (n - 1 - i) div 8 < k + length ([] :: byte list)
                          then bit (([] :: byte list) ! ((n - 1 - i) div 8 - k)) ((n - 1 - i) mod 8)
                          else cb ! i) [0..<n] = map ((!) cb) [0..<n]"
    by (rule map_upt_cong) auto
  ultimately show ?case by (simp del: upt_Suc)
next
  case (Cons b bs)
  let ?bad = "\<lambda>j b. \<exists>s < 8. n \<le> j * 8 + s \<and> bit b s"
  have split: "(\<exists>j < length (b # bs). \<exists>s < 8. n \<le> (k + j) * 8 + s \<and> bit ((b # bs) ! j) s)
       \<longleftrightarrow> ?bad k b \<or> (\<exists>j < length bs. \<exists>s < 8. n \<le> (Suc k + j) * 8 + s \<and> bit (bs ! j) s)"
    (is "?l \<longleftrightarrow> ?r")
  proof
    assume ?l
    then obtain j s where js: "j < length (b # bs)" "s < 8" "n \<le> (k + j) * 8 + s"
      "bit ((b # bs) ! j) s" by blast
    show ?r
    proof (cases j)
      case 0
      with js show ?thesis by auto
    next
      case (Suc j')
      with js have "j' < length bs" "n \<le> (Suc k + j') * 8 + s" "bit (bs ! j') s" by auto
      with js(2) show ?thesis by blast
    qed
  next
    assume ?r
    then show ?l
    proof
      assume "?bad k b"
      then obtain s where "s < 8" "n \<le> k * 8 + s" "bit b s" by blast
      then have "0 < length (b # bs) \<and> s < 8 \<and> n \<le> (k + 0) * 8 + s \<and> bit ((b # bs) ! 0) s"
        by simp
      then show ?l by blast
    next
      assume "\<exists>j < length bs. \<exists>s < 8. n \<le> (Suc k + j) * 8 + s \<and> bit (bs ! j) s"
      then obtain j s where "j < length bs" "s < 8" "n \<le> (Suc k + j) * 8 + s" "bit (bs ! j) s"
        by blast
      then have "Suc j < length (b # bs) \<and> s < 8 \<and> n \<le> (k + Suc j) * 8 + s
          \<and> bit ((b # bs) ! Suc j) s"
        by simp
      then show ?l by blast
    qed
  qed
  show ?case
  proof (cases "?bad k b")
    case True
    then show ?thesis
      unfolding split using inflate_byte_char [OF Cons.prems, of k b] by simp
  next
    case False
    let ?cb = "map (\<lambda>i. if (n - 1 - i) div 8 = k
                          then bit b ((n - 1 - i) mod 8) else cb ! i) [0..<n]"
    have first: "inflate_shifts n k b [0..<8] cb = Inr ?cb"
      using False inflate_byte_char [OF Cons.prems, of k b] by simp
    have len: "length ?cb = n" by simp
    have "inflate_bytes n (enumerate k (b # bs)) cb = inflate_bytes n (enumerate (Suc k) bs) ?cb"
      using first by simp
    also note Cons.IH [OF len, of "Suc k"]
    finally have step: "inflate_bytes n (enumerate k (b # bs)) cb =
       (if \<exists>j < length bs. \<exists>s < 8. n \<le> (Suc k + j) * 8 + s \<and> bit (bs ! j) s
        then Inl (ValueError ''Invalid payload length.'')
        else Inr (map (\<lambda>i. if Suc k \<le> (n - 1 - i) div 8 \<and> (n - 1 - i) div 8 < Suc k + length bs
                          then bit (bs ! ((n - 1 - i) div 8 - Suc k)) ((n - 1 - i) mod 8)
                          else ?cb ! i) [0..<n]))" .
    have pt: "(if Suc k \<le> (n - 1 - i) div 8 \<and> (n - 1 - i) div 8 < Suc k + length bs
               then bit (bs ! ((n - 1 - i) div 8 - Suc k)) ((n - 1 - i) mod 8)
               else ?cb ! i)
            = (if k \<le> (n - 1 - i) div 8 \<and> (n - 1 - i) div 8 < k + length (b # bs)
               then bit ((b # bs) ! ((n - 1 - i) div 8 - k)) ((n - 1 - i) mod 8)
               else cb ! i)" if "i < n" for i
    proof -
      consider "(n - 1 - i) div 8 = k" | "Suc k \<le> (n - 1 - i) div 8" | "(n - 1 - i) div 8 < k"
        by linarith
      then show ?thesis
      proof cases
        case 1
        with that show ?thesis by simp
      next
        case 2
        then obtain d where d: "(n - 1 - i) div 8 - k = Suc d" "(n - 1 - i) div 8 - Suc k = d"
          by (metis Suc_diff_le diff_Suc_Suc)
        from 2 that show ?thesis by (simp add: d)
      next
        case 3
        with that show ?thesis by simp
      qed
    qed
    have "map (\<lambda>i. if Suc k \<le> (n - 1 - i) div 8 \<and> (n - 1 - i) div 8 < Suc k + length bs
               then bit (bs ! ((n - 1 - i) div 8 - Suc k)) ((n - 1 - i) mod 8)
               else ?cb ! i) [0..<n]
        = map (\<lambda>i. if k \<le> (n - 1 - i) div 8 \<and> (n - 1 - i) div 8 < k + length (b # bs)
               then bit ((b # bs) ! ((n - 1 - i) div 8 - k)) ((n - 1 - i) mod 8)
               else cb ! i) [0..<n]"
      by (rule map_upt_cong) (rule pt)
    with step False show ?thesis
      unfolding split by (simp only: simp_thms if_False)
  qed
qed

lemma inflate_char:
  "inflate n votes =
     (if \<exists>p \<ge> n. bit_at votes p
      then Inl (ValueError ''Invalid payload length.'')
      else Inr (map (\<lambda>i. bit_at votes (n - 1 - i)) [0..<n]))"
proof -
  have cond: "(\<exists>j < length (rev votes). \<exists>s < 8. n \<le> (0 + j) * 8 + s \<and> bit (rev votes ! j) s)
      \<longleftrightarrow> (\<exists>p \<ge> n. bit_at votes p)" (is "?l \<longleftrightarrow> ?r")
  proof
    assume ?l
    then obtain j s where js: "j < length votes" "s < 8" "n \<le> j * 8 + s" "bit (rev votes ! j) s"
      by auto
    from js(2) have "(j * 8 + s) div 8 = j" "(j * 8 + s) mod 8 = s" by simp_all
    with js have "n \<le> j * 8 + s \<and> bit_at votes (j * 8 + s)" by (simp add: bit_at_def)
    then show ?r by blast
  next
    assume ?r
    then obtain p where p: "n \<le> p" "p div 8 < length votes" "bit (rev votes ! (p div 8)) (p mod 8)"
      by (auto simp: bit_at_def)
    have "p mod 8 < 8" by simp
    moreover have "n \<le> (0 + p div 8) * 8 + p mod 8" using p(1) by simp
    ultimately show ?l using p(2,3) by (metis length_rev)
  qed
  have pt: "(if 0 \<le> (n - 1 - i) div 8 \<and> (n - 1 - i) div 8 < 0 + length (rev votes)
             then bit (rev votes ! ((n - 1 - i) div 8 - 0)) ((n - 1 - i) mod 8)
             else replicate n False ! i) = bit_at votes (n - 1 - i)" if "i < n" for i
    using that by (simp add: bit_at_def)
  have res: "map (\<lambda>i. if 0 \<le> (n - 1 - i) div 8 \<and> (n - 1 - i) div 8 < 0 + length (rev votes)
             then bit (rev votes ! ((n - 1 - i) div 8 - 0)) ((n - 1 - i) mod 8)
             else replicate n False ! i) [0..<n] = map (\<lambda>i. bit_at votes (n - 1 - i)) [0..<n]"
    by (rule map_upt_cong) (rule pt)
  have "length (replicate n False) = n" by simp
  from inflate_bytes_char [OF this, of 0 "rev votes"] show ?thesis
    unfolding inflate_def cond res .
qed

lemma bit_at_pack_bits:
  "bit_at (pack_bits bs) p \<longleftrightarrow> p < length bs \<and> bs ! (length bs - 1 - p)"
proof (cases "p div 8 < (length bs + 7) div 8")
  case True
  have m: "p mod 8 < 8" by simp
  have "bit_at (pack_bits bs) p \<longleftrightarrow>
      p div 8 * 8 + p mod 8 < length bs \<and> bs ! (length bs - 1 - (p div 8 * 8 + p mod 8))"
    using True m by (simp add: bit_at_def pack_bits_def bit_horner_sum_bit_word_iff del: upt_Suc)
  then show ?thesis by simp
next
  case False
  then have "\<not> p < length bs" by linarith
  with False show ?thesis by (simp add: bit_at_def pack_bits_def)
qed

text \<open>
  C5. For every \<open>n_requests\<close> and remainder bytes, the inflation raises
  \<open>ValueError("Invalid payload length.")\<close> exactly when a bit is set at a position
  \<open>p \<ge> n_requests\<close> (the positions for which \<open>i = n_requests - 1 - p\<close> is negative);
  otherwise it returns the array of length \<open>n_requests\<close> whose element \<open>i\<close> is the bit
  at position \<open>n_requests - 1 - i\<close>. It inverts the packed encoding: inflating the
  encoding of a boolean array gives the array back.
\<close>

theorem inflate_inverts_packing:
  "inflate n votes =
     (if \<exists>p \<ge> n. bit_at votes p
      then Inl (ValueError ''Invalid payload length.'')
      else Inr (map (\<lambda>i. bit_at votes (n - 1 - i)) [0..<n]))
   \<and> inflate (length bs) (pack_bits bs) = Inr bs"
proof
  show "inflate n votes =
     (if \<exists>p \<ge> n. bit_at votes p
      then Inl (ValueError ''Invalid payload length.'')
      else Inr (map (\<lambda>i. bit_at votes (n - 1 - i)) [0..<n]))"
    by (rule inflate_char)
  have none: "\<not> (\<exists>p \<ge> length bs. bit_at (pack_bits bs) p)"
    by (simp add: bit_at_pack_bits)
  have "map (\<lambda>i. bit_at (pack_bits bs) (length bs - 1 - i)) [0..<length bs]
      = map ((!) bs) [0..<length bs]"
    by (rule map_upt_cong) (auto simp: bit_at_pack_bits)
  also have "\<dots> = bs" by (rule map_nth)
  finally show "inflate (length bs) (pack_bits bs) = Inr bs"
    using none by (simp add: inflate_char del: upt_Suc)
qed

theorem inflate_inverts_packing_witness:
  "inflate 3 [5] = Inr [True, False, True]
   \<and> inflate 3 [13] = Inl (ValueError ''Invalid payload length.'')
   \<and> inflate (length [True, False, True]) (pack_bits [True, False, True]) = Inr [True, False, True]"
proof -
  have a: "inflate 3 [5] = Inr [True, False, True]"
    by code_simp
  have b: "inflate 3 [13] = Inl (ValueError ''Invalid payload length.'')"
    by code_simp
  from a b inflate_inverts_packing [of 3 "[5]" "[True, False, True]"] show ?thesis
    by simp
qed

section \<open>Properties of the FTSO validator\<close>







section \<open>Properties of the FDC validator\<close>

text \<open>
  C10. For a round whose \<open>consensus_bitvote\<close> dictionary is empty, \<open>validate_fdc\<close> raises
  \<open>IndexError\<close> (the first element of the empty sorted list of tallies) and returns no
  issue, whatever the submissions of the identity.
\<close>

theorem validate_fdc_empty_bitvote:
  assumes "consensus_bitvote (fdc rnd) = []"
  shows "validate_fdc X rnd entity config = Inl IndexError"
  using assms by (simp add: validate_fdc_def most_voted_def first_item_def Let_def)

theorem validate_fdc_empty_bitvote_witness:
  "consensus_bitvote (fdc (new_round (VotingEpoch 7))) = []
   \<and> validate_fdc example_external (new_round (VotingEpoch 7)) example_entity example_config
       = Inl IndexError"
proof -
  have h: "consensus_bitvote (fdc (new_round (VotingEpoch 7))) = []"
    by (simp add: new_round_def empty_fdc_def)
  from h validate_fdc_empty_bitvote [OF h, of example_external example_entity example_config]
  show ?thesis
    by simp
qed

section \<open>Properties of the ingestion loop\<close>

text \<open>
  C9. Take a transaction of a block whose fields are all present. When its sender is not in
  \<open>by_omni\<close> the transaction is skipped: the manager is unchanged whatever the parsers
  are. When its sender is in \<open>by_omni\<close>, the step returns a manager, whatever the parsers
  do, and the loop goes on with the next transaction; when the selector is one of the
  three and the parser raises, the exception is swallowed and the manager is unchanged.
\<close>

theorem decode_failures_swallowed:
  assumes "from_tx_data tx_data block_data = Inr wtx"
  shows "(by_omni (entity_mapper sp) (from_address wtx) = None \<longrightarrow>
            (\<forall>Y. process_tx Y targets sp block_data (TxFull tx_data) m = Inr m))
       \<and> (\<exists>m'. process_tx X targets sp block_data (TxFull tx_data) m = Inr m'
             \<and> process_txs X targets sp block_data (TxFull tx_data # txs) m
                 = process_txs X targets sp block_data txs m')
       \<and> (targets (hex (take 4 (input wtx))) = Some ''submit1''
            \<and> isl (parse_submit1_tx X (hex (drop 4 (input wtx)))) \<longrightarrow>
            process_tx X targets sp block_data (TxFull tx_data) m = Inr m)
       \<and> (targets (hex (take 4 (input wtx))) = Some ''submit2''
            \<and> isl (parse_submit2_tx X (hex (drop 4 (input wtx)))) \<longrightarrow>
            process_tx X targets sp block_data (TxFull tx_data) m = Inr m)
       \<and> (targets (hex (take 4 (input wtx))) = Some ''submitSignatures''
            \<and> isl (parse_submit_signature_tx X (hex (drop 4 (input wtx)))) \<longrightarrow>
            process_tx X targets sp block_data (TxFull tx_data) m = Inr m)"
proof (intro conjI impI allI)
  fix Y
  assume "by_omni (entity_mapper sp) (from_address wtx) = None"
  with assms show "process_tx Y targets sp block_data (TxFull tx_data) m = Inr m"
    by (simp add: process_tx_def)
next
  from assms have "\<exists>m'. process_tx X targets sp block_data (TxFull tx_data) m = Inr m'"
    by (simp add: process_tx_def Let_def split: option.splits)
  then obtain m' where step: "process_tx X targets sp block_data (TxFull tx_data) m = Inr m'"
    by blast
  then have "process_txs X targets sp block_data (TxFull tx_data # txs) m
      = process_txs X targets sp block_data txs m'"
    by simp
  with step show "\<exists>m'. process_tx X targets sp block_data (TxFull tx_data) m = Inr m'
             \<and> process_txs X targets sp block_data (TxFull tx_data # txs) m
                 = process_txs X targets sp block_data txs m'"
    by blast
next
  assume "targets (hex (take 4 (input wtx))) = Some ''submit1''
            \<and> isl (parse_submit1_tx X (hex (drop 4 (input wtx))))"
  with assms show "process_tx X targets sp block_data (TxFull tx_data) m = Inr m"
    by (auto simp: process_tx_def Let_def except_pass_def try_body_def isl_def
        split: option.splits)
next
  assume "targets (hex (take 4 (input wtx))) = Some ''submit2''
            \<and> isl (parse_submit2_tx X (hex (drop 4 (input wtx))))"
  with assms show "process_tx X targets sp block_data (TxFull tx_data) m = Inr m"
    by (auto simp: process_tx_def Let_def except_pass_def try_body_def isl_def
        split: option.splits)
next
  assume "targets (hex (take 4 (input wtx))) = Some ''submitSignatures''
            \<and> isl (parse_submit_signature_tx X (hex (drop 4 (input wtx))))"
  with assms show "process_tx X targets sp block_data (TxFull tx_data) m = Inr m"
    by (auto simp: process_tx_def Let_def except_pass_def try_body_def isl_def
        split: option.splits)
qed

theorem decode_failures_swallowed_witness:
  "from_tx_data (example_tx_data ''V1-submit'' [1, 2, 3, 4, 0]) (example_block 640)
     = Inr (example_wtx ''V1-submit'' [1, 2, 3, 4, 0])
   \<and> by_omni (entity_mapper example_policy) ''V1-submit'' = Some example_entity
   \<and> process_tx example_external example_targets example_policy (example_block 640)
        (TxFull (example_tx_data ''V1-submit'' [1, 2, 3, 4, 0])) (example_manager 6 [])
       = Inr (example_manager 6 [])
   \<and> process_tx example_external example_targets example_policy (example_block 640)
        (TxFull (example_tx_data ''V1-submit'' [5, 6, 7, 8, 0])) (example_manager 6 [])
       = Inr (example_manager 6 [])
   \<and> process_tx example_external example_targets example_policy (example_block 640)
        (TxFull (example_tx_data ''V1-signatures'' [9, 10, 11, 12, 0])) (example_manager 6 [])
       = Inr (example_manager 6 [])
   \<and> by_omni (entity_mapper example_policy) ''0xB'' = None
   \<and> process_tx example_external example_targets example_policy (example_block 640)
        (TxFull (example_tx_data ''0xB'' [1, 2, 3, 4, 0])) (example_manager 6 [])
       = Inr (example_manager 6 [])"
proof -
  have f: "from_tx_data (example_tx_data sender calldata) (example_block 640)
      = Inr (example_wtx sender calldata)" for sender calldata
    by (simp add: from_tx_data_def example_tx_data_def example_block_def example_wtx_def)
  have o1: "by_omni (entity_mapper example_policy) ''V1-submit'' = Some example_entity"
    by (simp add: example_policy_def mapper_insert_def example_entity_def make_entity_def
        example_registered_def example_info_def empty_mapper_def)
  have o2: "by_omni (entity_mapper example_policy) ''0xB'' = None"
    by (simp add: example_policy_def mapper_insert_def example_entity_def make_entity_def
        example_registered_def example_info_def empty_mapper_def)
  have t1: "example_targets (hex (take 4 (input (example_wtx ''V1-submit'' [1, 2, 3, 4, 0]))))
      = Some ''submit1''"
    by (simp add: example_targets_def example_wtx_def hex_def hex_digit_def)
  have t2: "example_targets (hex (take 4 (input (example_wtx ''V1-submit'' [5, 6, 7, 8, 0]))))
      = Some ''submit2''"
    by (simp add: example_targets_def example_wtx_def hex_def hex_digit_def)
  have t3: "example_targets
      (hex (take 4 (input (example_wtx ''V1-signatures'' [9, 10, 11, 12, 0]))))
      = Some ''submitSignatures''"
    by (simp add: example_targets_def example_wtx_def hex_def hex_digit_def)
  have p1: "isl (parse_submit1_tx example_external inp)"
    and p2: "isl (parse_submit2_tx example_external inp)"
    and p3: "isl (parse_submit_signature_tx example_external inp)" for inp
    by (simp_all add: example_external_def)
  from decode_failures_swallowed [OF f [of "''V1-submit''" "[1, 2, 3, 4, 0]"], of example_policy
      example_targets "example_manager 6 []" example_external "[]"] t1 p1
  have r1: "process_tx example_external example_targets example_policy (example_block 640)
        (TxFull (example_tx_data ''V1-submit'' [1, 2, 3, 4, 0])) (example_manager 6 [])
       = Inr (example_manager 6 [])"
    by blast
  from decode_failures_swallowed [OF f [of "''V1-submit''" "[5, 6, 7, 8, 0]"], of example_policy
      example_targets "example_manager 6 []" example_external "[]"] t2 p2
  have r2: "process_tx example_external example_targets example_policy (example_block 640)
        (TxFull (example_tx_data ''V1-submit'' [5, 6, 7, 8, 0])) (example_manager 6 [])
       = Inr (example_manager 6 [])"
    by blast
  from decode_failures_swallowed [OF f [of "''V1-signatures''" "[9, 10, 11, 12, 0]"], of example_policy
      example_targets "example_manager 6 []" example_external "[]"] t3 p3
  have r3: "process_tx example_external example_targets example_policy (example_block 640)
        (TxFull (example_tx_data ''V1-signatures'' [9, 10, 11, 12, 0])) (example_manager 6 [])
       = Inr (example_manager 6 [])"
    by blast
  from decode_failures_swallowed [OF f [of "''0xB''" "[1, 2, 3, 4, 0]"], of example_policy
      example_targets "example_manager 6 []" example_external "[]"] o2
  have r4: "process_tx example_external example_targets example_policy (example_block 640)
        (TxFull (example_tx_data ''0xB'' [1, 2, 3, 4, 0])) (example_manager 6 [])
       = Inr (example_manager 6 [])"
    by (simp add: example_wtx_def)
  from f o1 o2 r1 r2 r3 r4 show ?thesis
    by blast
qed

text \<open>The test of the rollover never succeeds, so the rollover never happens.\<close>

lemma policy_rollover_unchanged: "policy_rollover ve (sp, b) = Inr (sp, b)"
  by (simp add: policy_rollover_def split: option.splits)

text \<open>
  Nothing in the loop sets the reward epoch of the builder: \<open>add\<close> keeps it, and the only
  call of \<open>for_epoch\<close> is in the branch of the rollover.
\<close>

lemma add_keeps_epoch:
  "add e b = Inr b' \<Longrightarrow> builder_reward_epoch b' = builder_reward_epoch b"
  by (cases e) (auto split: if_splits)

lemma process_log_keeps_epoch:
  assumes "process_log ve l (b, m) = Inr (b', m')"
  shows "builder_reward_epoch b' = builder_reward_epoch b"
proof (cases l)
  case (LogPolicy e)
  with assms show ?thesis
    by (auto split: sum.splits dest: add_keeps_epoch)
qed (use assms in \<open>auto simp: Let_def\<close>)

lemma process_logs_keeps_epoch:
  "process_logs ve ls (b, m) = Inr (b', m') \<Longrightarrow> builder_reward_epoch b' = builder_reward_epoch b"
proof (induction ls arbitrary: b m)
  case Nil
  then show ?case by simp
next
  case (Cons l ls)
  from Cons.prems obtain b1 m1 where
    one: "process_log ve l (b, m) = Inr (b1, m1)" and
    rest: "process_logs ve ls (b1, m1) = Inr (b', m')"
    by (auto split: sum.splits)
  from Cons.IH [OF rest] process_log_keeps_epoch [OF one] show ?case
    by simp
qed

lemma process_block_keeps_policy:
  assumes "process_block X targets config tia block_data block_logs st = (issues, Inr st')"
  shows "signing_policy st' = signing_policy st
         \<and> builder_reward_epoch (spb st') = builder_reward_epoch (spb st)"
proof -
  from assms obtain ve b2 m1 m2 m3 where
    logs: "process_logs ve block_logs (spb st, vrm st) = Inr (b2, m1)" and
    st': "st' = \<lparr>signing_policy = signing_policy st, spb = b2, vrm = m3\<rparr>"
    by (auto simp: process_block_def policy_rollover_unchanged
        split: option.splits sum.splits prod.splits)
  from process_logs_keeps_epoch [OF logs] st' show ?thesis
    by simp
qed

lemma process_blocks_keeps_policy:
  "process_blocks X targets config tia bs st = (issues, Inr st') \<Longrightarrow>
     signing_policy st' = signing_policy st
     \<and> builder_reward_epoch (spb st') = builder_reward_epoch (spb st)"
proof (induction bs arbitrary: st issues)
  case Nil
  then show ?case by simp
next
  case (Cons blk bs)
  obtain block_data block_logs where blk: "blk = (block_data, block_logs)"
    by (cases blk)
  from Cons.prems blk obtain i1 st1 i2 where
    one: "process_block X targets config tia block_data block_logs st = (i1, Inr st1)" and
    rest: "process_blocks X targets config tia bs st1 = (i2, Inr st')"
    by (auto split: prod.splits sum.splits)
  from Cons.IH [OF rest] process_block_keeps_policy [OF one] show ?case
    by simp
qed

lemma build_without_epoch: "builder_reward_epoch b = None \<Longrightarrow> build b = Inl AssertionError"
  by (simp add: build_def)

text \<open>
  In every state that the loop reaches the current policy is the policy the observer
  started with, and the builder has no reward epoch, so that \<open>build\<close> would fail its first
  assertion.
\<close>

lemma loop_never_rolls_over:
  assumes "process_blocks X targets config tia bs (initial_state sp ve) = (issues, Inr st)"
  shows "signing_policy st = sp \<and> build (spb st) = Inl AssertionError"
proof -
  from process_blocks_keeps_policy [OF assms] have
    "signing_policy st = sp" and "builder_reward_epoch (spb st) = None"
    by (simp_all add: initial_state_def builder_def)
  then show ?thesis
    by (simp add: build_without_epoch)
qed

text \<open>
  C1 on the code. The observer starts in voting epoch 1 with the policy of reward epoch 2.
  The block at second 100 delivers the events of reward epoch 3, the last of them a
  \<open>SigningPolicyInitialized\<close> whose \<open>start_voting_round_id\<close> is 7. The block at second
  640 lies in voting epoch 7: the builder's \<open>signing_policy_initialized\<close> is set and its
  \<open>start_voting_round_id\<close> equals the id of the epoch, yet the block leaves the state as
  it was: the current policy is still the policy of reward epoch 2, the builder is the same
  builder, still holding the events, and \<open>build\<close> was not called (it would have raised).
\<close>

theorem rollover_skipped:
  "process_block example_external example_targets example_config ''V1'' (example_block 100)
       example_logs (initial_state example_policy (VotingEpoch 1))
     = ([], Inr example_state)
   \<and> signing_policy_initialized (spb example_state) = Some example_initialized
   \<and> from_timestamp example_factory 640 = Inr (VotingEpoch 7)
   \<and> start_voting_round_id example_initialized = ve_id (VotingEpoch 7)
   \<and> \<not> py_eq (PyInt (start_voting_round_id example_initialized)) (PyVotingEpoch (VotingEpoch 7))
   \<and> process_block example_external example_targets example_config ''V1'' (example_block 640)
       [] example_state
     = ([], Inr example_state)
   \<and> signing_policy example_state = example_policy
   \<and> reward_epoch example_policy = RewardEpoch 2
   \<and> build (spb example_state) = Inl AssertionError"
proof -
  have t1: "from_timestamp example_factory 100 = Inr (VotingEpoch 1)"
    by (simp add: from_timestamp_def example_factory_def)
  have t7: "from_timestamp example_factory 640 = Inr (VotingEpoch 7)"
    by (simp add: from_timestamp_def example_factory_def)
  have logs: "process_logs (VotingEpoch 1) example_logs (builder, example_manager 0 [])
      = Inr (example_builder\<lparr>builder_reward_epoch := None\<rparr>, example_manager 0 [])"
    by (simp add: example_logs_def builder_def example_builder_def)
  have a: "process_block example_external example_targets example_config ''V1''
       (example_block 100) example_logs (initial_state example_policy (VotingEpoch 1))
     = ([], Inr example_state)"
    using t1 logs
    by (simp add: process_block_def policy_rollover_unchanged initial_state_def ve_previous_def
        example_block_def example_config_def finalize_def round_keys_def example_manager_def
        example_state_def)
  have b: "signing_policy_initialized (spb example_state) = Some example_initialized"
    by (simp add: example_state_def example_builder_def)
  have c: "start_voting_round_id example_initialized = ve_id (VotingEpoch 7)"
    by (simp add: example_initialized_def)
  have c': "\<not> py_eq (PyInt (start_voting_round_id example_initialized))
      (PyVotingEpoch (VotingEpoch 7))"
    by simp
  have d: "process_block example_external example_targets example_config ''V1''
       (example_block 640) [] example_state
     = ([], Inr example_state)"
    using t7
    by (simp add: process_block_def policy_rollover_unchanged example_block_def
        example_config_def finalize_def round_keys_def example_manager_def example_state_def)
  have e: "signing_policy example_state = example_policy"
    by (simp add: example_state_def)
  have f: "reward_epoch example_policy = RewardEpoch 2"
    by (simp add: example_policy_def)
  have g: "build (spb example_state) = Inl AssertionError"
    by (simp add: build_without_epoch example_state_def)
  from a b t7 c c' d e f g show ?thesis
    by (intro conjI)
qed

end
